theory Spec2Isabelle
  imports Main
begin

chapter \<open>The interception-and-resolution pipeline of the API mocker\<close>

text \<open>
  A shallow embedding of \<^verbatim>\<open>src/background/service-worker.js\<close> (the Rule Authority),
  \<^verbatim>\<open>src/content/interceptor.js\<close> (the Decision Relay) and
  \<^verbatim>\<open>src/content/injected.js\<close> (the Call-Site Shim and the Response Emulator).
  JavaScript strings are \<open>string\<close>; an absent (\<^verbatim>\<open>undefined\<close>) value is \<open>None\<close>;
  an exception is the \<open>Inl\<close> of a sum.
\<close>

section \<open>JavaScript strings\<close>

text \<open>
  \<^verbatim>\<open>String.prototype.toUpperCase\<close> and \<^verbatim>\<open>toLowerCase\<close> are the engine's: they apply
  the case mappings of the Unicode tables, which are no part of the repository. The
  embedding is given them as \<open>js\<close> and assumes nothing of them.
\<close>

record string_methods =
  toUpperCase :: "string \<Rightarrow> string"
  toLowerCase :: "string \<Rightarrow> string"

text \<open>
  The spec's "equal up to ASCII case", written without a conversion function: two code
  units are the same letter when they are equal or one is the lower-case letter
  \<^verbatim>\<open>a..z\<close> (97..122) 32 above the other; two strings are equal up to ASCII case when
  they have the same length and agree position by position.
\<close>

definition is_lower :: "char \<Rightarrow> bool" where
  "is_lower c = (97 \<le> (of_char c :: nat) \<and> (of_char c :: nat) \<le> 122)"

definition same_letter :: "char \<Rightarrow> char \<Rightarrow> bool" where
  "same_letter a b =
     (a = b \<or> (is_lower a \<and> (of_char b :: nat) + 32 = of_char a)
            \<or> (is_lower b \<and> (of_char a :: nat) + 32 = of_char b))"

fun eq_ascii_case :: "string \<Rightarrow> string \<Rightarrow> bool" where
  "eq_ascii_case [] [] = True"
| "eq_ascii_case (a # as) (b # bs) = (same_letter a b \<and> eq_ascii_case as bs)"
| "eq_ascii_case _ _ = False"

text \<open>
  What the engine's \<^verbatim>\<open>toUpperCase\<close> does to an ASCII string: a letter \<^verbatim>\<open>a..z\<close> moves to
  \<^verbatim>\<open>A..Z\<close>, every other code unit stays.
\<close>

definition upper_char :: "char \<Rightarrow> char" where
  "upper_char c = (if is_lower c then char_of ((of_char c :: nat) - 32) else c)"

definition ascii_upper :: "string \<Rightarrow> string" where
  "ascii_upper s = map upper_char s"

text \<open>
  The engine's two methods on strings whose code units are all below 256 (ASCII and the
  Latin-1 letters), for exercising the embedding on concrete strings. Upper case:
  \<^verbatim>\<open>a..z\<close> and the letters 0xE0..0xFE other than the division sign 0xF7 move down by
  32, and the sharp s 0xDF becomes \<^verbatim>\<open>SS\<close>. Lower case: \<^verbatim>\<open>A..Z\<close> and the letters
  0xC0..0xDE other than the multiplication sign 0xD7 move up by 32. The upper-case forms
  of the micro sign 0xB5 and of 0xFF are not below 256; these two code units are left in
  place here, and no example uses them.
\<close>

definition latin1_upper :: "char \<Rightarrow> string" where
  "latin1_upper c =
     (let n = (of_char c :: nat) in
      if (97 \<le> n \<and> n \<le> 122) \<or> (224 \<le> n \<and> n \<le> 254 \<and> n \<noteq> 247) then [char_of (n - 32)]
      else if n = 223 then ''SS''
      else [c])"

definition latin1_lower :: "char \<Rightarrow> char" where
  "latin1_lower c =
     (let n = (of_char c :: nat) in
      if (65 \<le> n \<and> n \<le> 90) \<or> (192 \<le> n \<and> n \<le> 222 \<and> n \<noteq> 215) then char_of (n + 32)
      else c)"

definition latin1_methods :: string_methods where
  "latin1_methods =
     \<lparr>toUpperCase = (\<lambda>s. concat (map latin1_upper s)),
      toLowerCase = (\<lambda>s. map latin1_lower s)\<rparr>"

section \<open>The Rule Authority: \<^verbatim>\<open>service-worker.js\<close>\<close>

text \<open>
  A response payload \<^verbatim>\<open>{status, statusText, headers, body}\<close>. Each field may be absent.
  \<^verbatim>\<open>headers\<close> is a plain object: its own entries in enumeration order, keys distinct.
\<close>

record mock_response =
  status :: "int option"
  statusText :: "string option"
  headers :: "(string \<times> string) list option"
  body :: "string option"

text \<open>The \<^verbatim>\<open>{url, method}\<close> of a query (\<^verbatim>\<open>requestInfo\<close>) and of a rule's \<^verbatim>\<open>request\<close>.\<close>

record request_info =
  url :: string
  http_method :: string

record rule =
  rule_id :: string
  enabled :: bool
  request :: request_info
  rule_response :: mock_response

text \<open>
  \<^verbatim>\<open>chrome.storage.local\<close> as \<open>checkMock\<close> reads it: each key may be unset. The flag is
  tested with \<^verbatim>\<open>=== false\<close>, so an unset flag counts as enabled.
\<close>

record storage =
  globalEnabled :: "bool option"
  mockRules :: "rule list option"

text \<open>
  The object a mock check resolves with: \<^verbatim>\<open>shouldMock\<close> (its truthiness), \<^verbatim>\<open>response\<close>
  (\<open>None\<close> when absent or falsy), and the two fields the code adds, \<^verbatim>\<open>ruleId\<close> on a
  match and \<^verbatim>\<open>error\<close> when the relay's forwarding threw.
\<close>

record decision =
  shouldMock :: bool
  response :: "mock_response option"
  ruleId :: "string option"
  error :: "string option"

definition no_mock :: decision where
  "no_mock = \<lparr>shouldMock = False, response = None, ruleId = None, error = None\<rparr>"

text \<open>\<^verbatim>\<open>Array.prototype.find\<close>: the first element, in index order, the predicate accepts.\<close>

fun array_find :: "('a \<Rightarrow> bool) \<Rightarrow> 'a list \<Rightarrow> 'a option" where
  "array_find p [] = None"
| "array_find p (x # xs) = (if p x then Some x else array_find p xs)"

text \<open>The callback given to \<^verbatim>\<open>rules.find\<close> (service-worker.js, lines 224-234).\<close>

definition rule_matches :: "string_methods \<Rightarrow> request_info \<Rightarrow> rule \<Rightarrow> bool" where
  "rule_matches js requestInfo rule =
     (if \<not> enabled rule then False
      else
        let urlMatch = (url (request rule) = url requestInfo);
            methodMatch = (toUpperCase js (http_method (request rule))
                             = toUpperCase js (http_method requestInfo))
        in urlMatch \<and> methodMatch)"

text \<open>\<^verbatim>\<open>checkMock(requestInfo)\<close> of the service worker (lines 214-245).\<close>

definition sw_checkMock :: "string_methods \<Rightarrow> storage \<Rightarrow> request_info \<Rightarrow> decision" where
  "sw_checkMock js st requestInfo =
     (if globalEnabled st = Some False then no_mock
      else
        let rules = (case mockRules st of None \<Rightarrow> [] | Some rs \<Rightarrow> rs) in
        case array_find (rule_matches js requestInfo) rules of
          Some matchingRule \<Rightarrow>
            \<lparr>shouldMock = True, response = Some (rule_response matchingRule),
             ruleId = Some (rule_id matchingRule), error = None\<rparr>
        | None \<Rightarrow> no_mock)"

text \<open>
  The spec's matching condition for one rule, in the spec's words, and the condition with
  the method compared the way the code compares it: by the upper-case forms.
\<close>

definition spec_matches :: "rule \<Rightarrow> string \<Rightarrow> string \<Rightarrow> bool" where
  "spec_matches r u m =
     (enabled r = True \<and> url (request r) = u \<and> eq_ascii_case (http_method (request r)) m)"

definition upper_case_matches :: "string_methods \<Rightarrow> rule \<Rightarrow> string \<Rightarrow> string \<Rightarrow> bool" where
  "upper_case_matches js r u m =
     (enabled r = True \<and> url (request r) = u
      \<and> toUpperCase js (http_method (request r)) = toUpperCase js m)"

definition stored_rules :: "storage \<Rightarrow> rule list" where
  "stored_rules st = (case mockRules st of None \<Rightarrow> [] | Some rs \<Rightarrow> rs)"

text \<open>A stored rule set used to exercise the rule authority on concrete queries.\<close>

definition example_created :: mock_response where
  \<open>example_created =
     \<lparr>status = Some 201, statusText = Some ''Created'',
      headers = Some [(''Content-Type'', ''application/json'')], body = Some ''{"id":1}''\<rparr>\<close>

definition example_ok :: mock_response where
  "example_ok =
     \<lparr>status = Some 200, statusText = Some ''OK'', headers = Some [], body = Some ''[]''\<rparr>"

definition example_rules :: "rule list" where
  "example_rules =
     [\<lparr>rule_id = ''rule_1'', enabled = False,
       request = \<lparr>url = ''https://api.x/users'', http_method = ''POST''\<rparr>,
       rule_response = example_ok\<rparr>,
      \<lparr>rule_id = ''rule_2'', enabled = True,
       request = \<lparr>url = ''https://api.x/users'', http_method = ''post''\<rparr>,
       rule_response = example_created\<rparr>,
      \<lparr>rule_id = ''rule_3'', enabled = True,
       request = \<lparr>url = ''https://api.x/users'', http_method = ''POST''\<rparr>,
       rule_response = example_ok\<rparr>,
      \<lparr>rule_id = ''rule_4'', enabled = True,
       request = \<lparr>url = ''https://a/b'', http_method = ''GET''\<rparr>,
       rule_response = example_ok\<rparr>]"

definition example_storage :: "bool option \<Rightarrow> storage" where
  "example_storage flag = \<lparr>globalEnabled = flag, mockRules = Some example_rules\<rparr>"

text \<open>
  A rule whose method is the one letter \<^verbatim>\<open>e\<close> with an acute accent, in lower case (the
  code unit 0xE9); its upper case is the code unit 0xC9.
\<close>

definition example_accented_rule :: rule where
  "example_accented_rule =
     \<lparr>rule_id = ''rule_5'', enabled = True,
      request = \<lparr>url = ''https://a/b'', http_method = [CHR 0xE9]\<rparr>,
      rule_response = example_ok\<rparr>"

section \<open>The page context: \<^verbatim>\<open>injected.js\<close>\<close>

text \<open>
  The script keeps a \<^verbatim>\<open>Map\<close> of pending mock checks and a counter (lines 12-13). A query
  id is the template string \<^verbatim>\<open>`req_${Date.now()}_${++requestCounter}`\<close>; \<open>decimal\<close> writes
  a number in decimal digits, as the template does.
\<close>

fun decimal :: "nat \<Rightarrow> string" where
  "decimal n =
     (if n < 10 then [char_of (48 + n)]
      else decimal (n div 10) @ [char_of (48 + n mod 10)])"

declare decimal.simps [simp del]

text \<open>
  An entry \<^verbatim>\<open>{ resolve, timeout }\<close>. A promise and a timer are known by a number: \<open>resolve\<close>
  is the promise the resolve function belongs to, \<open>timeout\<close> the handle \<^verbatim>\<open>setTimeout\<close>
  returned.
\<close>

record pending_entry =
  resolve :: nat
  timeout :: nat

text \<open>
  The callback of lines 31-34 closes over the query id and the resolve function of its
  promise.
\<close>

datatype timer_callback = MockCheckTimeout string nat

text \<open>
  The data of a window message, \<^verbatim>\<open>{ source, type, requestId, payload }\<close>, and the event that
  carries it: \<open>from_window\<close> is \<^verbatim>\<open>event.source === window\<close>, \<open>data\<close> is \<open>None\<close> when
  \<^verbatim>\<open>event.data\<close> is falsy.
\<close>

record 'p message =
  source :: string
  msg_type :: string
  requestId :: string
  payload :: 'p

record 'p message_event =
  from_window :: bool
  data :: "'p message option"

text \<open>
  The state of the page context. \<open>timers\<close> holds the timers that are set and have neither
  run nor been cleared, each with its delay in milliseconds. \<open>resolve_calls\<close> lists every
  call of a resolve function, in order, with the value passed. \<open>posted\<close> lists the
  queries posted to the window.
\<close>

record page =
  pendingRequests :: "string \<rightharpoonup> pending_entry"
  requestCounter :: nat
  timers :: "nat \<rightharpoonup> nat \<times> timer_callback"
  next_handle :: nat
  next_promise :: nat
  resolve_calls :: "(nat \<times> decision option) list"
  posted :: "request_info message list"

definition initial_page :: page where
  "initial_page =
     \<lparr>pendingRequests = Map.empty, requestCounter = 0, timers = Map.empty,
      next_handle = 1, next_promise = 0, resolve_calls = [], posted = []\<rparr>"

definition request_id_string :: "nat \<Rightarrow> nat \<Rightarrow> string" where
  "request_id_string now counter = ''req_'' @ decimal now @ ''_'' @ decimal counter"

text \<open>\<^verbatim>\<open>generateRequestId\<close> (lines 18-20); \<open>now\<close> is \<^verbatim>\<open>Date.now()\<close>.\<close>

definition generateRequestId :: "nat \<Rightarrow> page \<Rightarrow> string \<times> page" where
  "generateRequestId now s =
     (let s' = s\<lparr>requestCounter := requestCounter s + 1\<rparr>
      in (request_id_string now (requestCounter s'), s'))"

text \<open>\<^verbatim>\<open>setTimeout\<close>, \<^verbatim>\<open>clearTimeout\<close> and a call of a promise's resolve function.\<close>

definition setTimeout :: "timer_callback \<Rightarrow> nat \<Rightarrow> page \<Rightarrow> nat \<times> page" where
  "setTimeout callback delay s =
     (next_handle s,
      s\<lparr>timers := (timers s)(next_handle s \<mapsto> (delay, callback)),
        next_handle := next_handle s + 1\<rparr>)"

definition clearTimeout :: "nat \<Rightarrow> page \<Rightarrow> page" where
  "clearTimeout h s = s\<lparr>timers := (timers s)(h := None)\<rparr>"

definition call_resolve :: "nat \<Rightarrow> decision option \<Rightarrow> page \<Rightarrow> page" where
  "call_resolve p v s = s\<lparr>resolve_calls := resolve_calls s @ [(p, v)]\<rparr>"

text \<open>
  \<^verbatim>\<open>checkMock(url, method)\<close> (lines 26-46): the executor of the new promise makes the id,
  sets the one-second timer, stores the entry and posts the query. The result is the
  promise.
\<close>

definition checkMock :: "nat \<Rightarrow> string \<Rightarrow> string \<Rightarrow> page \<Rightarrow> nat \<times> page" where
  "checkMock now u m s =
     (let p = next_promise s;
          s0 = s\<lparr>next_promise := next_promise s + 1\<rparr>;
          (rid, s1) = generateRequestId now s0;
          (h, s2) = setTimeout (MockCheckTimeout rid p) 1000 s1;
          s3 = s2\<lparr>pendingRequests := (pendingRequests s2)(rid \<mapsto> \<lparr>resolve = p, timeout = h\<rparr>)\<rparr>;
          s4 = s3\<lparr>posted := posted s3 @
                 [\<lparr>source = ''api-mocker-injected'', msg_type = ''CHECK_MOCK'',
                   requestId = rid, payload = \<lparr>url = u, http_method = m\<rparr>\<rparr>]\<rparr>
      in (p, s4))"

text \<open>
  The timer with handle \<open>h\<close> runs (lines 31-34): a timer runs once, so it leaves \<open>timers\<close>;
  its callback deletes the entry and resolves with \<^verbatim>\<open>{ shouldMock: false }\<close>. A handle
  that is not set runs nothing.
\<close>

definition run_timer :: "nat \<Rightarrow> page \<Rightarrow> page" where
  "run_timer h s =
     (case timers s h of
        None \<Rightarrow> s
      | Some (delay, MockCheckTimeout rid p) \<Rightarrow>
          call_resolve p (Some no_mock)
            ((clearTimeout h s)\<lparr>pendingRequests := (pendingRequests s)(rid := None)\<rparr>))"

text \<open>The \<^verbatim>\<open>message\<close> listener (lines 51-65).\<close>

definition on_message :: "decision option message_event \<Rightarrow> page \<Rightarrow> page" where
  "on_message event s =
     (if \<not> from_window event then s
      else case data event of
        None \<Rightarrow> s
      | Some d \<Rightarrow>
          if source d \<noteq> ''api-mocker-content'' then s
          else if msg_type d = ''MOCK_RESPONSE'' \<and> requestId d \<noteq> [] then
            (case pendingRequests s (requestId d) of
               None \<Rightarrow> s
             | Some pending \<Rightarrow>
                 let s1 = clearTimeout (timeout pending) s;
                     s2 = s1\<lparr>pendingRequests := (pendingRequests s1)(requestId d := None)\<rparr>
                 in call_resolve (resolve pending) (payload d) s2)
          else s)"

text \<open>
  What can happen in the page context, one event at a time: page code starts a mock
  check, a timer runs, a message arrives. \<open>run_page\<close> is the state after a sequence of
  events, from the state in which the script was loaded.
\<close>

datatype page_event =
    CallCheckMock nat string string
  | TimerFires nat
  | MessageArrives "decision option message_event"

fun page_step :: "page \<Rightarrow> page_event \<Rightarrow> page" where
  "page_step s (CallCheckMock now u m) = snd (checkMock now u m s)"
| "page_step s (TimerFires h) = run_timer h s"
| "page_step s (MessageArrives ev) = on_message ev s"

definition run_page :: "page_event list \<Rightarrow> page" where
  "run_page evs = foldl page_step initial_page evs"

text \<open>
  The invariant of the registry: every entry has its timer set, with the one-second
  delay and a callback for this entry; its promise has not been resolved; its id was made
  from a counter value already used. Every timer belongs to an entry. No two entries share
  a promise, and no promise has been resolved twice.
\<close>

definition page_inv :: "page \<Rightarrow> bool" where
  "page_inv s \<longleftrightarrow>
     (\<forall>rid e. pendingRequests s rid = Some e \<longrightarrow>
        timers s (timeout e) = Some (1000, MockCheckTimeout rid (resolve e))
        \<and> resolve e < next_promise s
        \<and> resolve e \<notin> fst ` set (resolve_calls s)
        \<and> (\<exists>now c. rid = request_id_string now c \<and> c \<le> requestCounter s))
   \<and> (\<forall>h d rid p. timers s h = Some (d, MockCheckTimeout rid p) \<longrightarrow>
        pendingRequests s rid = Some \<lparr>resolve = p, timeout = h\<rparr> \<and> h < next_handle s)
   \<and> (\<forall>rid rid' e e'. pendingRequests s rid = Some e \<longrightarrow> pendingRequests s rid' = Some e' \<longrightarrow>
        resolve e = resolve e' \<longrightarrow> rid = rid')
   \<and> (\<forall>p \<in> fst ` set (resolve_calls s). p < next_promise s)
   \<and> distinct (map fst (resolve_calls s))"

text \<open>
  What both ways of settling a query do to the state: the entry and its timer go, and the
  promise's resolve function is called with \<open>v\<close>.
\<close>

definition settle :: "string \<Rightarrow> pending_entry \<Rightarrow> decision option \<Rightarrow> page \<Rightarrow> page" where
  "settle rid e v s =
     s\<lparr>pendingRequests := (pendingRequests s)(rid := None),
       timers := (timers s)(timeout e := None),
       resolve_calls := resolve_calls s @ [(resolve e, v)]\<rparr>"

text \<open>The messages the listener acts on: lines 52, 53 and 57.\<close>

definition accepted :: "decision option message_event \<Rightarrow> bool" where
  "accepted event \<longleftrightarrow>
     from_window event \<and>
     (case data event of None \<Rightarrow> False
      | Some d \<Rightarrow> source d = ''api-mocker-content'' \<and> msg_type d = ''MOCK_RESPONSE''
                  \<and> requestId d \<noteq> [])"

section \<open>The Decision Relay: \<^verbatim>\<open>interceptor.js\<close>\<close>

text \<open>
  The listener for \<^verbatim>\<open>CHECK_MOCK\<close> (lines 20-50). \<open>sendMessage\<close> is
  \<^verbatim>\<open>chrome.runtime.sendMessage\<close> awaited: \<open>Inr\<close> the service worker's response, \<open>Inl\<close> the
  message of the error it throws. The result is the list of messages posted to the window.
\<close>

definition relay_on_message ::
  "(request_info \<Rightarrow> string + decision option) \<Rightarrow> request_info message_event
     \<Rightarrow> decision option message list" where
  "relay_on_message sendMessage event =
     (if \<not> from_window event then []
      else case data event of
        None \<Rightarrow> []
      | Some d \<Rightarrow>
          if source d \<noteq> ''api-mocker-injected'' then []
          else if msg_type d = ''CHECK_MOCK'' then
            (case sendMessage (payload d) of
               Inr reply \<Rightarrow>
                 [\<lparr>source = ''api-mocker-content'', msg_type = ''MOCK_RESPONSE'',
                   requestId = requestId d, payload = reply\<rparr>]
             | Inl error_message \<Rightarrow>
                 [\<lparr>source = ''api-mocker-content'', msg_type = ''MOCK_RESPONSE'',
                   requestId = requestId d,
                   payload = Some \<lparr>shouldMock = False, response = None, ruleId = None,
                                   error = Some error_message\<rparr>\<rparr>])
          else [])"

text \<open>A message posted with \<^verbatim>\<open>window.postMessage\<close> arrives as an event whose source is the window.\<close>

definition delivered :: "'p message \<Rightarrow> 'p message_event" where
  "delivered m = \<lparr>from_window = True, data = Some m\<rparr>"

section \<open>Exceptions\<close>

datatype js_error = TypeError | RangeError

text \<open>\<^verbatim>\<open>try { ... } catch (e) { ... }\<close>\<close>

definition try_catch :: "js_error + 'a \<Rightarrow> (js_error \<Rightarrow> js_error + 'a) \<Rightarrow> js_error + 'a" where
  "try_catch block handler = (case block of Inl e \<Rightarrow> handler e | Inr v \<Rightarrow> Inr v)"

section \<open>The platform's \<^verbatim>\<open>Headers\<close> and \<^verbatim>\<open>Response\<close> constructors\<close>

text \<open>
  The two constructors the fetch shim calls are the browser's, not the repository's. They
  are modelled after the Fetch Standard as far as the shim's call can tell: which
  arguments they reject, and the status, status text, header entries and body the
  response is made from.
\<close>

definition is_tchar :: "char \<Rightarrow> bool" where
  "is_tchar c =
     (let n = (of_char c :: nat) in
      (48 \<le> n \<and> n \<le> 57) \<or> (65 \<le> n \<and> n \<le> 90) \<or> (97 \<le> n \<and> n \<le> 122)
      \<or> c \<in> set ''!#$%&*+-.^_`|~'' \<or> n = 39)"

definition is_header_name :: "string \<Rightarrow> bool" where
  "is_header_name s = (s \<noteq> [] \<and> list_all is_tchar s)"

definition is_http_whitespace :: "char \<Rightarrow> bool" where
  "is_http_whitespace c = ((of_char c :: nat) \<in> {9, 10, 13, 32})"

definition normalize_header_value :: "string \<Rightarrow> string" where
  "normalize_header_value v =
     rev (dropWhile is_http_whitespace (rev (dropWhile is_http_whitespace v)))"

definition is_header_value :: "string \<Rightarrow> bool" where
  "is_header_value v = list_all (\<lambda>c. (of_char c :: nat) \<notin> {0, 10, 13}) v"

text \<open>
  \<^verbatim>\<open>new Headers(init)\<close> for a plain object: each entry is appended in turn, its value
  normalized; an entry whose name is not a token or whose value has a NUL, CR or LF
  raises \<^verbatim>\<open>TypeError\<close>.
\<close>

fun new_Headers :: "(string \<times> string) list \<Rightarrow> js_error + (string \<times> string) list" where
  "new_Headers [] = Inr []"
| "new_Headers ((name, v) # rest) =
     (if is_header_name name \<and> is_header_value (normalize_header_value v)
      then (case new_Headers rest of
              Inl e \<Rightarrow> Inl e
            | Inr hs \<Rightarrow> Inr ((name, normalize_header_value v) # hs))
      else Inl TypeError)"

definition is_reason_phrase :: "string \<Rightarrow> bool" where
  "is_reason_phrase s =
     list_all (\<lambda>c. let n = (of_char c :: nat) in n = 9 \<or> (32 \<le> n \<and> n \<le> 126) \<or> 128 \<le> n) s"

definition null_body_status :: "int \<Rightarrow> bool" where
  "null_body_status n = (n \<in> {101, 103, 204, 205, 304})"

record response_init =
  init_status :: int
  init_statusText :: string
  init_headers :: "(string \<times> string) list"

record response_object =
  response_status :: int
  response_statusText :: string
  response_headers :: "(string \<times> string) list"
  response_body :: string

text \<open>
  \<^verbatim>\<open>new Response(body, init)\<close> with a string body (never \<^verbatim>\<open>null\<close>: the shim passes
  \<^verbatim>\<open>body || ''\<close>). The status is converted to an unsigned short; outside 200..599 it
  raises \<^verbatim>\<open>RangeError\<close>. A status text that is not a reason phrase raises
  \<^verbatim>\<open>TypeError\<close>, and so does a null body status (101, 103, 204, 205, 304), because
  the body is not null. \<open>response_headers\<close> are the entries the response's header list is
  filled from.
\<close>

definition new_Response :: "string \<Rightarrow> response_init \<Rightarrow> js_error + response_object" where
  "new_Response b i =
     (let st = init_status i mod 65536 in
      if \<not> (200 \<le> st \<and> st \<le> 599) then Inl RangeError
      else if \<not> is_reason_phrase (init_statusText i) then Inl TypeError
      else if null_body_status st then Inl TypeError
      else Inr \<lparr>response_status = st, response_statusText = init_statusText i,
                response_headers = init_headers i, response_body = b\<rparr>)"

section \<open>The Call-Site Shim: \<^verbatim>\<open>window.fetch\<close>\<close>

text \<open>
  What the shim needs of the page: the engine's string methods,
  \<^verbatim>\<open>window.location.origin\<close>, and the URL parser, \<^verbatim>\<open>new URL(url, base).href\<close>, which
  returns the absolute URL or throws.
\<close>

record platform = string_methods +
  location_origin :: string
  URL_href :: "string \<Rightarrow> string \<Rightarrow> js_error + string"

text \<open>
  The arguments of a \<^verbatim>\<open>fetch\<close> call. The input is a \<^verbatim>\<open>Request\<close> object (its \<^verbatim>\<open>url\<close>
  and \<^verbatim>\<open>method\<close>) or anything else, given by its \<^verbatim>\<open>String(input)\<close>. \<open>init\<close> is
  \<open>None\<close> when the caller passed none; \<open>init_method\<close> is \<^verbatim>\<open>init.method\<close>, and the other
  options are carried along untouched.
\<close>

datatype fetch_input = RequestObject request_info | Stringable string

record fetch_init =
  init_method :: "string option"
  init_options :: "(string \<times> string) list"

record fetch_args =
  arg_input :: fetch_input
  arg_init :: "fetch_init option"

text \<open>\<^verbatim>\<open>a || b\<close> on strings and on numbers: the empty string, zero and an absent value are falsy.\<close>

definition or_string :: "string option \<Rightarrow> string \<Rightarrow> string" where
  "or_string a b = (case a of None \<Rightarrow> b | Some s \<Rightarrow> if s = [] then b else s)"

definition or_number :: "int option \<Rightarrow> int \<Rightarrow> int" where
  "or_number a b = (case a of None \<Rightarrow> b | Some n \<Rightarrow> if n = 0 then b else n)"

text \<open>Lines 86-91 and 141-146: the URL is replaced by its absolute form when the parser accepts it.\<close>

definition normalize_url :: "platform \<Rightarrow> string \<Rightarrow> js_error + string" where
  "normalize_url pf u =
     try_catch (URL_href pf u (location_origin pf)) (\<lambda>e. Inr u)"

text \<open>Lines 75-94: the URL and the upper-cased method the mock check is asked with.\<close>

definition fetch_query :: "platform \<Rightarrow> fetch_args \<Rightarrow> js_error + request_info" where
  "fetch_query pf args =
     (let (u, m) =
        (case arg_input args of
           RequestObject r \<Rightarrow> (url r, or_string (Some (http_method r)) ''GET'')
         | Stringable s \<Rightarrow>
             (s, or_string (case arg_init args of None \<Rightarrow> None | Some i \<Rightarrow> init_method i) ''GET''))
      in case normalize_url pf u of
           Inl e \<Rightarrow> Inl e
         | Inr u' \<Rightarrow> Inr \<lparr>url = u', http_method = toUpperCase pf m\<rparr>)"

text \<open>
  The call of \<^verbatim>\<open>window.fetch\<close> up to its \<^verbatim>\<open>await\<close>: the query is registered and posted,
  and the caller gets a promise. \<open>Inl\<close> would be a rejection before the query is issued.
\<close>

definition fetch_call :: "platform \<Rightarrow> nat \<Rightarrow> fetch_args \<Rightarrow> page \<Rightarrow> js_error + nat \<times> page" where
  "fetch_call pf now args s =
     (case fetch_query pf args of
        Inl e \<Rightarrow> Inl e
      | Inr q \<Rightarrow> Inr (checkMock now (url q) (http_method q) s))"

text \<open>Lines 99-110: the synthetic response.\<close>

definition mock_Response :: "mock_response \<Rightarrow> js_error + response_object" where
  "mock_Response r =
     (case new_Headers (case headers r of None \<Rightarrow> [] | Some h \<Rightarrow> h) of
        Inl e \<Rightarrow> Inl e
      | Inr responseHeaders \<Rightarrow>
          new_Response (or_string (body r) '''')
            \<lparr>init_status = or_number (status r) 200,
             init_statusText = or_string (statusText r) ''OK'',
             init_headers = responseHeaders\<rparr>)"

text \<open>
  How the promise of a \<^verbatim>\<open>fetch\<close> call settles: with the synthetic response, with what the
  original \<^verbatim>\<open>fetch\<close> returned, or rejected with an error raised in the shim.
\<close>

datatype 'r fetch_outcome = Synthetic response_object | FromOriginal 'r | Rejected js_error

text \<open>
  Lines 94-115, after the \<^verbatim>\<open>await\<close>. \<open>mockCheck\<close> is the value the mock check resolved
  with (\<open>None\<close> for \<^verbatim>\<open>undefined\<close>, on which reading \<^verbatim>\<open>shouldMock\<close> throws). \<open>calls\<close>
  lists the argument lists the original \<^verbatim>\<open>fetch\<close> has been applied to.
\<close>

definition fetch_resume ::
  "(fetch_args \<Rightarrow> 'r) \<Rightarrow> fetch_args \<Rightarrow> decision option \<Rightarrow> fetch_args list
     \<Rightarrow> 'r fetch_outcome \<times> fetch_args list" where
  "fetch_resume originalFetch args mockCheck calls =
     (case mockCheck of
        None \<Rightarrow> (Rejected TypeError, calls)
      | Some d \<Rightarrow>
          if shouldMock d \<and> response d \<noteq> None then
            (case mock_Response (the (response d)) of
               Inl e \<Rightarrow> (Rejected e, calls)
             | Inr synthetic \<Rightarrow> (Synthetic synthetic, calls))
          else (FromOriginal (originalFetch args), calls @ [args]))"

section \<open>The Call-Site Shim: \<^verbatim>\<open>XMLHttpRequest\<close>\<close>

text \<open>The \<^verbatim>\<open>xhrInfo\<close> object of one instance (lines 122-128).\<close>

record xhrInfo =
  info_method :: string
  info_url :: string
  info_async :: bool
  info_mocked :: bool
  info_mockResponse :: "mock_response option"

definition new_xhrInfo :: xhrInfo where
  "new_xhrInfo =
     \<lparr>info_method = ''GET'', info_url = '''', info_async = True, info_mocked = False,
      info_mockResponse = None\<rparr>"

text \<open>
  The arguments of \<^verbatim>\<open>open\<close>; \<open>None\<close> is an argument left out. \<open>original_open\<close> are the five
  arguments the original \<^verbatim>\<open>open\<close> is called with.
\<close>

record open_args =
  open_method :: string
  open_url :: string
  open_async :: "bool option"
  open_user :: "string option"
  open_password :: "string option"

record original_open =
  passed_method :: string
  passed_url :: string
  passed_async :: bool
  passed_user :: "string option"
  passed_password :: "string option"

text \<open>
  \<^verbatim>\<open>xhr.open\<close> (lines 136-149): the new \<^verbatim>\<open>xhrInfo\<close> and the call of the original
  \<^verbatim>\<open>open\<close>, whose result is returned.
\<close>

definition xhr_open ::
  "platform \<Rightarrow> open_args \<Rightarrow> xhrInfo \<Rightarrow> js_error + xhrInfo \<times> original_open" where
  "xhr_open pf a info =
     (let async = (case open_async a of None \<Rightarrow> True | Some b \<Rightarrow> b);
          info1 = info\<lparr>info_method := toUpperCase pf (open_method a), info_url := open_url a,
                       info_async := async\<rparr>
      in case try_catch
                (case URL_href pf (open_url a) (location_origin pf) of
                   Inl e \<Rightarrow> Inl e
                 | Inr href \<Rightarrow> Inr (info1\<lparr>info_url := href\<rparr>))
                (\<lambda>e. Inr info1) of
           Inl e \<Rightarrow> Inl e
         | Inr info2 \<Rightarrow>
             Inr (info2,
                  \<lparr>passed_method = open_method a, passed_url = open_url a, passed_async = async,
                   passed_user = open_user a, passed_password = open_password a\<rparr>))"

text \<open>
  What a caller sees when a call returns: \<^verbatim>\<open>undefined\<close>, a promise, or an exception.
\<close>

datatype js_return = ReturnsUndefined | ReturnsPromise | Throws js_error

text \<open>
  The unmodified \<^verbatim>\<open>send(body)\<close>: the request is started before the call returns, and the
  call returns \<^verbatim>\<open>undefined\<close> or throws. \<open>sent\<close> lists the bodies the original \<^verbatim>\<open>send\<close> has
  been called with.
\<close>

definition original_send_call ::
  "(string option \<Rightarrow> js_error + unit) \<Rightarrow> string option \<Rightarrow> string option list
     \<Rightarrow> js_return \<times> string option list" where
  "original_send_call originalSend b sent =
     ((case originalSend b of Inl e \<Rightarrow> Throws e | Inr u \<Rightarrow> ReturnsUndefined), sent @ [b])"

text \<open>
  The override (lines 152-169) is an \<^verbatim>\<open>async\<close> function. The call itself runs up to the
  \<^verbatim>\<open>await\<close>: it issues the mock check and returns a promise.
\<close>

definition xhr_send_call ::
  "nat \<Rightarrow> xhrInfo \<Rightarrow> string option \<Rightarrow> page \<Rightarrow> string option list
     \<Rightarrow> js_return \<times> page \<times> string option list" where
  "xhr_send_call now info b s sent =
     (let (p, s') = checkMock now (info_url info) (info_method info) s
      in (ReturnsPromise, s', sent))"

section \<open>The Response Emulator: \<^verbatim>\<open>simulateMockedXHR\<close>\<close>

text \<open>
  The values a caller can read off the instance: numbers, strings, \<^verbatim>\<open>null\<close>,
  \<^verbatim>\<open>undefined\<close>, and a member inherited from \<^verbatim>\<open>Object.prototype\<close>, given by its name.
\<close>

datatype js_value = JUndefined | JNull | JNumber int | JString string | JInherited string

fun truthy :: "js_value \<Rightarrow> bool" where
  "truthy JUndefined = False"
| "truthy JNull = False"
| "truthy (JNumber n) = (n \<noteq> 0)"
| "truthy (JString s) = (s \<noteq> [])"
| "truthy (JInherited name) = True"

text \<open>
  The handlers \<^verbatim>\<open>onreadystatechange\<close>, \<^verbatim>\<open>onload\<close> and \<^verbatim>\<open>onloadend\<close> are the page's code. A
  handler is called with no argument or with an event, of which the model keeps the name
  and whether the platform is dispatching it at the instance (then its \<^verbatim>\<open>target\<close> is the
  instance; an event that is only constructed has the \<^verbatim>\<open>target\<close> \<^verbatim>\<open>null\<close>). It reads
  \<^verbatim>\<open>readyState\<close>. It returns or throws, and by then it may have assigned to the handler
  properties of the instance. So a handler gives, for the argument it is called with and
  the \<^verbatim>\<open>readyState\<close> it reads, the assignments it makes and the exception it throws, if
  any.
\<close>

datatype handler_argument = NoArgument | EventArgument string bool

datatype handler =
  Handler "handler_argument \<Rightarrow> js_value option
             \<Rightarrow> (string \<times> handler option) list \<times> js_error option"

fun run_handler ::
  "handler \<Rightarrow> handler_argument \<Rightarrow> js_value option
     \<Rightarrow> (string \<times> handler option) list \<times> js_error option" where
  "run_handler (Handler f) arg seen = f arg seen"

text \<open>
  The instance as the emulator changes it. \<open>accessors\<close> are the own properties made by
  \<^verbatim>\<open>defineReadOnly\<close>: an accessor that has a getter returning the value, no setter, and
  is configurable. The two header methods are \<open>None\<close> while they are the native ones, and
  afterwards hold what their replacement closes over. A handler slot holds the handler
  registered, and is \<open>None\<close> (\<^verbatim>\<open>null\<close>) when there is none. \<open>assigned\<close> records the
  assignments made to other properties.
\<close>

record xhr_object =
  accessors :: "string \<rightharpoonup> js_value"
  allResponseHeaders :: "string option"
  responseHeaderSource :: "(string \<times> string) list option option"
  onreadystatechange :: "handler option"
  onload :: "handler option"
  onloadend :: "handler option"
  assigned :: "string \<rightharpoonup> js_value"

text \<open>An assignment \<^verbatim>\<open>xhr.on... = h\<close> made by a handler.\<close>

definition assign_handler :: "string \<times> handler option \<Rightarrow> xhr_object \<Rightarrow> xhr_object" where
  "assign_handler a obj =
     (if fst a = ''onreadystatechange'' then obj\<lparr>onreadystatechange := snd a\<rparr>
      else if fst a = ''onload'' then obj\<lparr>onload := snd a\<rparr>
      else if fst a = ''onloadend'' then obj\<lparr>onloadend := snd a\<rparr>
      else obj)"

definition defineReadOnly :: "xhr_object \<Rightarrow> string \<Rightarrow> js_value \<Rightarrow> xhr_object" where
  "defineReadOnly obj prop v = obj\<lparr>accessors := (accessors obj)(prop \<mapsto> v)\<rparr>"

text \<open>
  Reading a property the emulator defined runs its getter. Assigning to it finds an
  accessor without a setter: the assignment does nothing in sloppy-mode code and raises
  \<^verbatim>\<open>TypeError\<close> in strict-mode code. A property the emulator has not defined is the
  native object's business: reading it gives \<open>None\<close> here, and an assignment to it is
  only recorded.
\<close>

definition read_property :: "xhr_object \<Rightarrow> string \<Rightarrow> js_value option" where
  "read_property obj prop = accessors obj prop"

definition assign_property ::
  "bool \<Rightarrow> xhr_object \<Rightarrow> string \<Rightarrow> js_value \<Rightarrow> js_error + xhr_object" where
  "assign_property strict obj prop v =
     (case accessors obj prop of
        Some getter_value \<Rightarrow> if strict then Inl TypeError else Inr obj
      | None \<Rightarrow> Inr (obj\<lparr>assigned := (assigned obj)(prop \<mapsto> v)\<rparr>))"

text \<open>Lines 212-218: \<^verbatim>\<open>headersStr\<close>.\<close>

fun headers_lines :: "(string \<times> string) list \<Rightarrow> string" where
  "headers_lines [] = ''''"
| "headers_lines ((key, v) # rest) = key @ '': '' @ v @ [CHR 13, CHR 10] @ headers_lines rest"

definition headersStr :: "(string \<times> string) list option \<Rightarrow> string" where
  "headersStr hs = (case hs of None \<Rightarrow> '''' | Some entries \<Rightarrow> headers_lines entries)"

text \<open>
  \<^verbatim>\<open>headers[name]\<close> on the plain object \<^verbatim>\<open>headers\<close>: an own entry, else a member of
  \<^verbatim>\<open>Object.prototype\<close>, else \<^verbatim>\<open>undefined\<close>.
\<close>

definition object_prototype_members :: "string list" where
  "object_prototype_members =
     [''constructor'', ''hasOwnProperty'', ''isPrototypeOf'', ''propertyIsEnumerable'',
      ''toLocaleString'', ''toString'', ''valueOf'', ''__proto__'', ''__defineGetter__'',
      ''__defineSetter__'', ''__lookupGetter__'', ''__lookupSetter__'']"

definition get_member :: "(string \<times> string) list \<Rightarrow> string \<Rightarrow> js_value" where
  "get_member entries name =
     (case map_of entries name of
        Some v \<Rightarrow> JString v
      | None \<Rightarrow> if name \<in> set object_prototype_members then JInherited name else JUndefined)"

text \<open>The loop of lines 231-235: the first entry whose lower-cased key is \<open>lowerName\<close>.\<close>

fun find_header ::
  "string_methods \<Rightarrow> string \<Rightarrow> (string \<times> string) list \<Rightarrow> js_value option" where
  "find_header js lowerName [] = None"
| "find_header js lowerName ((key, v) # rest) =
     (if toLowerCase js key = lowerName then Some (JString v)
      else find_header js lowerName rest)"

text \<open>Lines 224-238: the replacement of \<^verbatim>\<open>getResponseHeader\<close>.\<close>

definition getResponseHeader ::
  "string_methods \<Rightarrow> (string \<times> string) list option \<Rightarrow> string \<Rightarrow> js_value" where
  "getResponseHeader js hs name =
     (case hs of
        None \<Rightarrow> JNull
      | Some entries \<Rightarrow>
          if truthy (get_member entries name) then get_member entries name
          else (case find_header js (toLowerCase js name) entries of
                  Some v \<Rightarrow> v
                | None \<Rightarrow> JNull))"

text \<open>
  The timer callbacks of lines 241-281, one per state, and what each records: the
  handlers that are called, with the argument and the \<^verbatim>\<open>readyState\<close> the instance shows at
  that moment, and the events it dispatches. The \<^verbatim>\<open>ProgressEvent\<close> objects are taken to be
  constructed without error.
\<close>

datatype stage = OPENED | HEADERS_RECEIVED | LOADING | DONE

fun stage_value :: "stage \<Rightarrow> int" where
  "stage_value OPENED = 1"
| "stage_value HEADERS_RECEIVED = 2"
| "stage_value LOADING = 3"
| "stage_value DONE = 4"

datatype emulator_event =
    HandlerInvoked string handler_argument "js_value option"
  | EventDispatched string
  | DispatchThrew string js_error

type_synonym emulation = "xhr_object \<times> (nat \<times> emulator_event) list"

text \<open>
  Two statements in sequence: an exception of the first is the outcome, and the second
  is not run.
\<close>

definition and_then ::
  "(js_error + unit) \<times> emulation \<Rightarrow> (emulation \<Rightarrow> (js_error + 'a) \<times> emulation)
     \<Rightarrow> (js_error + 'a) \<times> emulation" where
  "and_then first second =
     (case first of
        (Inl e, em) \<Rightarrow> (Inl e, em)
      | (Inr u, em) \<Rightarrow> second em)"

text \<open>
  A call of the handler in a slot at time \<open>t\<close>, when there is one, by the script or by
  the platform: the call is recorded, the handler's assignments are made, and its
  exception, if any, is the outcome.
\<close>

definition call_handler ::
  "nat \<Rightarrow> string \<Rightarrow> (xhr_object \<Rightarrow> handler option) \<Rightarrow> handler_argument \<Rightarrow> js_value option
     \<Rightarrow> emulation \<Rightarrow> (js_error + unit) \<times> emulation" where
  "call_handler t name slot arg seen em =
     (case slot (fst em) of
        None \<Rightarrow> (Inr (), em)
      | Some h \<Rightarrow>
          (let em' = (fold assign_handler (fst (run_handler h arg seen)) (fst em),
                      snd em @ [(t, HandlerInvoked name arg seen)])
           in case snd (run_handler h arg seen) of
                None \<Rightarrow> (Inr (), em')
              | Some e \<Rightarrow> (Inl e, em')))"

text \<open>
  \<^verbatim>\<open>if (xhr.onreadystatechange) xhr.onreadystatechange()\<close> at time \<open>t\<close>, and the same for
  the other two slots with their argument: the handler reads the \<^verbatim>\<open>readyState\<close> the
  emulator has defined, and an exception it throws is not caught.
\<close>

definition invoke_handler ::
  "nat \<Rightarrow> string \<Rightarrow> (xhr_object \<Rightarrow> handler option) \<Rightarrow> handler_argument \<Rightarrow> emulation
     \<Rightarrow> (js_error + unit) \<times> emulation" where
  "invoke_handler t name slot arg em =
     call_handler t name slot arg (read_property (fst em) ''readyState'') em"

text \<open>
  \<^verbatim>\<open>xhr.dispatchEvent(new ProgressEvent(name))\<close>: \<open>dispatchEvent name\<close> is \<open>None\<close> when the
  platform carries the dispatch out and the error when the call throws. The platform
  carries it out by running the listeners for the event at the instance, of which the
  model has the handler in the slot \<^verbatim>\<open>on\<close>\<open>name\<close>: the handler is called once more, with
  the dispatched event. An exception of a listener is reported to the page and not
  thrown from \<^verbatim>\<open>dispatchEvent\<close>. What has been recorded before an exception stays recorded.
\<close>

definition dispatchEvent_call ::
  "(string \<Rightarrow> js_error option) \<Rightarrow> nat \<Rightarrow> string \<Rightarrow> (xhr_object \<Rightarrow> handler option) \<Rightarrow> emulation
     \<Rightarrow> (js_error + unit) \<times> emulation" where
  "dispatchEvent_call dispatchEvent t name slot em =
     (case dispatchEvent name of
        None \<Rightarrow>
          (Inr (),
           snd (invoke_handler t (''on'' @ name) slot (EventArgument name True)
                  (fst em, snd em @ [(t, EventDispatched name)])))
      | Some e \<Rightarrow> (Inl e, (fst em, snd em @ [(t, DispatchThrew name e)])))"

text \<open>Lines 272-277: the two dispatches in a \<^verbatim>\<open>try\<close> whose \<^verbatim>\<open>catch\<close> does nothing.\<close>

definition dispatch_events ::
  "(string \<Rightarrow> js_error option) \<Rightarrow> nat \<Rightarrow> emulation \<Rightarrow> (js_error + unit) \<times> emulation" where
  "dispatch_events dispatchEvent t em =
     (let attempt =
            and_then (dispatchEvent_call dispatchEvent t ''load'' onload em)
              (dispatchEvent_call dispatchEvent t ''loadend'' onloadend)
      in case attempt of
           (Inl e, em2) \<Rightarrow> (Inr (), em2)
         | (Inr u, em2) \<Rightarrow> (Inr (), em2))"

text \<open>
  One timer callback, run at time \<open>t\<close>: the exception it ends with or the timer it sets
  (delay and stage, \<open>None\<close> when it sets none), and the new state of the emulation. The
  next timer is set last, so a callback that ends with an exception sets none.
\<close>

fun tick ::
  "(string \<Rightarrow> js_error option) \<Rightarrow> nat \<Rightarrow> stage \<Rightarrow> emulation
     \<Rightarrow> (js_error + (nat \<times> stage) option) \<times> emulation" where
  "tick dispatchEvent t OPENED (xhr, tr) =
     and_then
       (invoke_handler t ''onreadystatechange'' onreadystatechange NoArgument
          (defineReadOnly xhr ''readyState'' (JNumber 1), tr))
       (\<lambda>em. (Inr (Some (5, HEADERS_RECEIVED)), em))"
| "tick dispatchEvent t HEADERS_RECEIVED (xhr, tr) =
     and_then
       (invoke_handler t ''onreadystatechange'' onreadystatechange NoArgument
          (defineReadOnly xhr ''readyState'' (JNumber 2), tr))
       (\<lambda>em. (Inr (Some (5, LOADING)), em))"
| "tick dispatchEvent t LOADING (xhr, tr) =
     and_then
       (invoke_handler t ''onreadystatechange'' onreadystatechange NoArgument
          (defineReadOnly xhr ''readyState'' (JNumber 3), tr))
       (\<lambda>em. (Inr (Some (5, DONE)), em))"
| "tick dispatchEvent t DONE (xhr, tr) =
     and_then
       (invoke_handler t ''onreadystatechange'' onreadystatechange NoArgument
          (defineReadOnly xhr ''readyState'' (JNumber 4), tr))
       (\<lambda>em1. and_then
          (invoke_handler t ''onload'' onload (EventArgument ''load'' False) em1)
          (\<lambda>em2. and_then
             (invoke_handler t ''onloadend'' onloadend (EventArgument ''loadend'' False) em2)
             (\<lambda>em3. and_then (dispatch_events dispatchEvent t em3)
                (\<lambda>em4. (Inr None, em4)))))"

text \<open>Lines 194-241: the part of \<^verbatim>\<open>simulateMockedXHR\<close> that runs at once, and the first timer.\<close>

definition simulateMockedXHR :: "xhr_object \<Rightarrow> mock_response \<Rightarrow> xhr_object \<times> nat \<times> stage" where
  "simulateMockedXHR xhr mockResponse =
     (let x1 = defineReadOnly xhr ''status'' (JNumber (or_number (status mockResponse) 200));
          x2 = defineReadOnly x1 ''statusText'' (JString (or_string (statusText mockResponse) ''OK''));
          x3 = defineReadOnly x2 ''response'' (JString (or_string (body mockResponse) ''''));
          x4 = defineReadOnly x3 ''responseText'' (JString (or_string (body mockResponse) ''''));
          x5 = defineReadOnly x4 ''responseURL'' (JString '''');
          x6 = x5\<lparr>allResponseHeaders := Some (headersStr (headers mockResponse)),
                  responseHeaderSource := Some (headers mockResponse)\<rparr>
      in (x6, 5, OPENED))"

text \<open>
  How the rest of \<^verbatim>\<open>send\<close> ends once the mock check has resolved: the emulation is
  started on the instance (lines 156-165), or the original \<^verbatim>\<open>send\<close> is called and its outcome settles the
  promise, or reading \<^verbatim>\<open>shouldMock\<close> throws.
\<close>

datatype send_outcome =
    Simulated xhrInfo "xhr_object \<times> nat \<times> stage"
  | SentOriginal "js_error + unit"
  | SendRejected js_error

definition xhr_send_resume ::
  "(string option \<Rightarrow> js_error + unit) \<Rightarrow> xhr_object \<Rightarrow> xhrInfo \<Rightarrow> string option
     \<Rightarrow> decision option \<Rightarrow> string option list \<Rightarrow> send_outcome \<times> string option list" where
  "xhr_send_resume originalSend xhr info b mockCheck sent =
     (case mockCheck of
        None \<Rightarrow> (SendRejected TypeError, sent)
      | Some d \<Rightarrow>
          if shouldMock d \<and> response d \<noteq> None then
            (let info' = info\<lparr>info_mocked := True, info_mockResponse := response d\<rparr>
             in (Simulated info' (simulateMockedXHR xhr (the (info_mockResponse info'))), sent))
          else (SentOriginal (originalSend b), sent @ [b]))"





section \<open>Notions the properties are stated with\<close>

text \<open>Whether an event settles the query \<open>rid\<close> whose timer is \<open>h\<close>.\<close>

fun settles :: "string \<Rightarrow> nat \<Rightarrow> page_event \<Rightarrow> bool" where
  "settles rid h (CallCheckMock now u m) = False"
| "settles rid h (TimerFires h') = (h' = h)"
| "settles rid h (MessageArrives ev) = (accepted ev \<and> map_option requestId (data ev) = Some rid)"

text \<open>The reply the relay posts for the query \<open>rid\<close>, as the page context receives it.\<close>

definition mock_reply :: "string \<Rightarrow> decision option \<Rightarrow> decision option message_event" where
  "mock_reply rid v =
     delivered \<lparr>source = ''api-mocker-content'', msg_type = ''MOCK_RESPONSE'',
                requestId = rid, payload = v\<rparr>"

text \<open>A query id counts as issued once the counter has reached its number.\<close>

definition issued :: "page \<Rightarrow> string \<Rightarrow> bool" where
  "issued s rid \<longleftrightarrow> (\<exists>now c. rid = request_id_string now c \<and> c \<le> requestCounter s)"

text \<open>The payload the relay posts when forwarding threw (interceptor.js, line 46).\<close>

definition transport_failure :: "string \<Rightarrow> decision" where
  "transport_failure error_message =
     \<lparr>shouldMock = False, response = None, ruleId = None, error = Some error_message\<rparr>"

text \<open>A page context in which two mock checks are pending.\<close>

definition example_page :: page where
  "example_page =
     foldl page_step (snd (checkMock 5 ''https://a/b'' ''GET'' (run_page [])))
       [CallCheckMock 6 ''https://c/d'' ''POST'']"

section \<open>Values the properties are exercised on\<close>

text \<open>
  A handler that returns whatever it is called with, and one that reads a property of its
  event's \<^verbatim>\<open>target\<close>: it throws \<^verbatim>\<open>TypeError\<close> when called without an event or with an event
  that is not being dispatched, and returns otherwise. Neither assigns a handler.
\<close>

definition example_handler :: handler where
  "example_handler = Handler (\<lambda>arg seen. ([], None))"


text \<open>
  An instance no emulation has touched, with all three handlers registered, and the same
  with a handler in \<^verbatim>\<open>onreadystatechange\<close>, or in \<^verbatim>\<open>onload\<close>, that reads the event's target.
\<close>

definition example_xhr :: xhr_object where
  "example_xhr =
     \<lparr>accessors = Map.empty, allResponseHeaders = None, responseHeaderSource = None,
      onreadystatechange = Some example_handler, onload = Some example_handler,
      onloadend = Some example_handler, assigned = Map.empty\<rparr>"



text \<open>A platform whose URL parser accepts \<^verbatim>\<open>/b\<close> and throws on every other string.\<close>

definition example_platform :: platform where
  "example_platform =
     \<lparr>toUpperCase = toUpperCase latin1_methods, toLowerCase = toLowerCase latin1_methods,
      location_origin = ''https://a'',
      URL_href = (\<lambda>u base. if u = ''/b'' then Inr (base @ u) else Inl TypeError)\<rparr>"

text \<open>The URL the shim goes on with: the parser's absolute form, else the string itself.\<close>

definition extracted_url :: "platform \<Rightarrow> string \<Rightarrow> string" where
  "extracted_url pf u =
     (case URL_href pf u (location_origin pf) of Inr href \<Rightarrow> href | Inl e \<Rightarrow> u)"

text \<open>A response payload with two headers, one of them with an empty value.\<close>

definition example_payload :: mock_response where
  "example_payload =
     \<lparr>status = Some 404, statusText = Some ''Not Found'',
      headers = Some [(''Content-Type'', ''application/json''), (''X-Trace'', '''')],
      body = Some ''{}''\<rparr>"

text \<open>The properties \<^verbatim>\<open>simulateMockedXHR\<close> defines at once, with their values.\<close>

definition overridden :: "mock_response \<Rightarrow> (string \<times> js_value) list" where
  "overridden r =
     [(''status'', JNumber (or_number (status r) 200)),
      (''statusText'', JString (or_string (statusText r) ''OK'')),
      (''response'', JString (or_string (body r) '''')),
      (''responseText'', JString (or_string (body r) '''')),
      (''responseURL'', JString '''')]"


text \<open>
  A handler slot is quiet for a call when it is empty, or its handler returns from that
  call and has assigned no handler; it keeps the handlers when it is empty, or its handler
  assigns no handler in that call, whether it returns or throws.
\<close>

definition returns_quietly :: "handler option \<Rightarrow> handler_argument \<Rightarrow> int \<Rightarrow> bool" where
  "returns_quietly slot arg k =
     (case slot of
        None \<Rightarrow> True
      | Some h \<Rightarrow> run_handler h arg (Some (JNumber k)) = ([], None))"

definition keeps_handlers :: "handler option \<Rightarrow> handler_argument \<Rightarrow> int \<Rightarrow> bool" where
  "keeps_handlers slot arg k =
     (case slot of
        None \<Rightarrow> True
      | Some h \<Rightarrow> fst (run_handler h arg (Some (JNumber k))) = [])"

text \<open>
  The handlers of an instance let the emulation through: each returns from every call
  the script makes, and none assigns a handler in a call of the emulation.
\<close>

definition handlers_return :: "xhr_object \<Rightarrow> bool" where
  "handlers_return xhr =
     (returns_quietly (onreadystatechange xhr) NoArgument 1
      \<and> returns_quietly (onreadystatechange xhr) NoArgument 2
      \<and> returns_quietly (onreadystatechange xhr) NoArgument 3
      \<and> returns_quietly (onreadystatechange xhr) NoArgument 4
      \<and> returns_quietly (onload xhr) (EventArgument ''load'' False) 4
      \<and> returns_quietly (onloadend xhr) (EventArgument ''loadend'' False) 4
      \<and> keeps_handlers (onload xhr) (EventArgument ''load'' True) 4)"



chapter \<open>Properties\<close>

section \<open>Case conversion\<close>

lemma of_char_upper_char:
  "(of_char (upper_char c) :: nat) = (if is_lower c then of_char c - 32 else of_char c)"
  by (auto simp add: upper_char_def is_lower_def)

lemma upper_char_eq_iff: "upper_char a = upper_char b \<longleftrightarrow> same_letter a b"
proof -
  define na nb where "na = (of_char a :: nat)" and "nb = (of_char b :: nat)"
  have ab: "a = b \<longleftrightarrow> na = nb"
    by (simp add: na_def nb_def)
  have "upper_char a = upper_char b
          \<longleftrightarrow> (of_char (upper_char a) :: nat) = of_char (upper_char b)"
    by simp
  also have "\<dots> \<longleftrightarrow> (if 97 \<le> na \<and> na \<le> 122 then na - 32 else na)
                     = (if 97 \<le> nb \<and> nb \<le> 122 then nb - 32 else nb)"
    by (simp only: of_char_upper_char is_lower_def na_def nb_def)
  also have "\<dots> \<longleftrightarrow> (na = nb \<or> ((97 \<le> na \<and> na \<le> 122) \<and> nb + 32 = na)
                           \<or> ((97 \<le> nb \<and> nb \<le> 122) \<and> na + 32 = nb))"
    by (cases "97 \<le> na \<and> na \<le> 122"; cases "97 \<le> nb \<and> nb \<le> 122") auto
  also have "\<dots> \<longleftrightarrow> same_letter a b"
    by (simp only: same_letter_def is_lower_def ab na_def nb_def)
  finally show ?thesis .
qed

lemma ascii_upper_eq_iff: "ascii_upper a = ascii_upper b \<longleftrightarrow> eq_ascii_case a b"
  by (induction a b rule: eq_ascii_case.induct)
     (simp_all add: ascii_upper_def upper_char_eq_iff)

lemma rule_matches_iff:
  "rule_matches js \<lparr>url = u, http_method = m\<rparr> r \<longleftrightarrow> upper_case_matches js r u m"
  by (simp add: rule_matches_def upper_case_matches_def)

lemma latin1_upper_ascii: "(of_char c :: nat) < 128 \<Longrightarrow> latin1_upper c = [upper_char c]"
  by (simp add: latin1_upper_def upper_char_def is_lower_def Let_def)

lemma latin1_toUpperCase_ascii:
  "\<forall>c \<in> set s. (of_char c :: nat) < 128 \<Longrightarrow> toUpperCase latin1_methods s = ascii_upper s"
  by (induction s) (simp_all add: latin1_methods_def ascii_upper_def latin1_upper_ascii)

section \<open>The first match\<close>

lemma array_find_first:
  "i < length xs \<Longrightarrow> p (xs ! i) \<Longrightarrow> (\<And>j. j < i \<Longrightarrow> \<not> p (xs ! j)) \<Longrightarrow>
     array_find p xs = Some (xs ! i)"
proof (induction xs arbitrary: i)
  case Nil
  then show ?case by simp
next
  case (Cons x xs)
  show ?case
  proof (cases i)
    case 0
    with Cons.prems show ?thesis by simp
  next
    case (Suc k)
    have "\<not> p x" using Cons.prems(3)[of 0] Suc by simp
    moreover have "array_find p xs = Some (xs ! k)"
    proof (rule Cons.IH)
      show "k < length xs" using Cons.prems(1) Suc by simp
      show "p (xs ! k)" using Cons.prems(2) Suc by simp
      show "\<not> p (xs ! j)" if "j < k" for j
        using Cons.prems(3)[of "Suc j"] that Suc by simp
    qed
    ultimately show ?thesis using Suc by simp
  qed
qed

lemma array_find_none: "(\<And>x. x \<in> set xs \<Longrightarrow> \<not> p x) \<Longrightarrow> array_find p xs = None"
  by (induction xs) auto

section \<open>Claim C1: what the rule authority answers\<close>

text \<open>
  C1 as stated fails: the code compares the methods after \<^verbatim>\<open>toUpperCase()\<close>, which folds
  more than the ASCII letters. With the stored rule \<open>example_accented_rule\<close>, whose
  method is the code unit 0xE9, a query for the same URL with the method 0xC9 is
  answered \<^verbatim>\<open>shouldMock:true\<close>, although the two methods are not equal up to ASCII case
  and so no rule matches in the sense of the claim.
\<close>

theorem toUpperCase_folds_beyond_ascii:
  "sw_checkMock latin1_methods
       \<lparr>globalEnabled = Some True, mockRules = Some [example_accented_rule]\<rparr>
       \<lparr>url = ''https://a/b'', http_method = [CHR 0xC9]\<rparr>
     = \<lparr>shouldMock = True, response = Some example_ok, ruleId = Some ''rule_5'',
        error = None\<rparr>
   \<and> \<not> spec_matches example_accented_rule ''https://a/b'' [CHR 0xC9]"
  by (simp add: sw_checkMock_def rule_matches_def example_accented_rule_def
      latin1_methods_def latin1_upper_def spec_matches_def same_letter_def is_lower_def
      char_of_def bit_0)

text \<open>
  C1, amended. For every query \<open>(u, m)\<close>, rule set and flag state, and whatever the
  engine's \<^verbatim>\<open>toUpperCase\<close> is: when the stored global flag is \<^verbatim>\<open>false\<close> the answer is
  \<^verbatim>\<open>{shouldMock:false}\<close>. Otherwise, when the rule at index \<open>i\<close> is enabled, has a URL
  string-equal to \<open>u\<close> and a method whose upper-case form is string-equal to the
  upper-case form of \<open>m\<close>, and no rule before it does, the answer carries
  \<^verbatim>\<open>shouldMock:true\<close> and that rule's response (and, as the code adds, its id). When no
  rule does, the answer is \<^verbatim>\<open>{shouldMock:false}\<close>. For a rule and a query on whose methods
  \<^verbatim>\<open>toUpperCase\<close> acts as it does on ASCII strings, this condition is the claim's: the
  methods are equal up to ASCII case. In particular, rules for \<^verbatim>\<open>https://a/b\<close> never
  answer a query for \<^verbatim>\<open>https://a/b?x=1\<close>, whatever the method.
\<close>

theorem sw_checkMock_resolve:
  "(globalEnabled st = Some False \<longrightarrow>
      sw_checkMock js st \<lparr>url = u, http_method = m\<rparr> = no_mock)
   \<and> (globalEnabled st \<noteq> Some False \<longrightarrow>
        (\<forall>i < length (stored_rules st).
           upper_case_matches js (stored_rules st ! i) u m
           \<and> (\<forall>j < i. \<not> upper_case_matches js (stored_rules st ! j) u m) \<longrightarrow>
           sw_checkMock js st \<lparr>url = u, http_method = m\<rparr> =
             \<lparr>shouldMock = True, response = Some (rule_response (stored_rules st ! i)),
              ruleId = Some (rule_id (stored_rules st ! i)), error = None\<rparr>)
        \<and> ((\<forall>r \<in> set (stored_rules st). \<not> upper_case_matches js r u m) \<longrightarrow>
           sw_checkMock js st \<lparr>url = u, http_method = m\<rparr> = no_mock))
   \<and> (\<forall>r :: rule.
          toUpperCase js (http_method (request r)) = ascii_upper (http_method (request r))
          \<and> toUpperCase js m = ascii_upper m \<longrightarrow>
          upper_case_matches js r u m = spec_matches r u m)
   \<and> ((\<forall>r \<in> set (stored_rules st). url (request r) = ''https://a/b'') \<longrightarrow>
        sw_checkMock js st \<lparr>url = ''https://a/b?x=1'', http_method = m\<rparr> = no_mock)"
proof (intro conjI impI allI)
  assume "globalEnabled st = Some False"
  then show "sw_checkMock js st \<lparr>url = u, http_method = m\<rparr> = no_mock"
    by (simp add: sw_checkMock_def)
next
  fix i
  assume on: "globalEnabled st \<noteq> Some False"
    and i: "i < length (stored_rules st)"
    and first: "upper_case_matches js (stored_rules st ! i) u m
                \<and> (\<forall>j < i. \<not> upper_case_matches js (stored_rules st ! j) u m)"
  have "array_find (rule_matches js \<lparr>url = u, http_method = m\<rparr>) (stored_rules st)
          = Some (stored_rules st ! i)"
    using i first by (intro array_find_first) (simp_all add: rule_matches_iff)
  then show "sw_checkMock js st \<lparr>url = u, http_method = m\<rparr> =
      \<lparr>shouldMock = True, response = Some (rule_response (stored_rules st ! i)),
       ruleId = Some (rule_id (stored_rules st ! i)), error = None\<rparr>"
    using on by (simp add: sw_checkMock_def stored_rules_def)
next
  assume on: "globalEnabled st \<noteq> Some False"
    and none: "\<forall>r \<in> set (stored_rules st). \<not> upper_case_matches js r u m"
  have "array_find (rule_matches js \<lparr>url = u, http_method = m\<rparr>) (stored_rules st) = None"
    using none by (intro array_find_none) (simp add: rule_matches_iff)
  then show "sw_checkMock js st \<lparr>url = u, http_method = m\<rparr> = no_mock"
    using on by (simp add: sw_checkMock_def stored_rules_def)
next
  fix r :: rule
  assume "toUpperCase js (http_method (request r)) = ascii_upper (http_method (request r))
          \<and> toUpperCase js m = ascii_upper m"
  then show "upper_case_matches js r u m = spec_matches r u m"
    by (simp add: upper_case_matches_def spec_matches_def ascii_upper_eq_iff)
next
  assume all: "\<forall>r \<in> set (stored_rules st). url (request r) = ''https://a/b''"
  have "array_find (rule_matches js \<lparr>url = ''https://a/b?x=1'', http_method = m\<rparr>)
          (stored_rules st) = None"
    using all by (intro array_find_none) (simp add: rule_matches_def)
  then show "sw_checkMock js st \<lparr>url = ''https://a/b?x=1'', http_method = m\<rparr> = no_mock"
    by (simp add: sw_checkMock_def stored_rules_def)
qed

lemma example_rules_nth:
  "example_rules ! 0 = \<lparr>rule_id = ''rule_1'', enabled = False,
       request = \<lparr>url = ''https://api.x/users'', http_method = ''POST''\<rparr>,
       rule_response = example_ok\<rparr>"
  "example_rules ! Suc 0 = \<lparr>rule_id = ''rule_2'', enabled = True,
       request = \<lparr>url = ''https://api.x/users'', http_method = ''post''\<rparr>,
       rule_response = example_created\<rparr>"
  "length example_rules = 4"
  by (simp_all add: example_rules_def)

lemma latin1_upper_examples:
  "toUpperCase latin1_methods ''post'' = ''POST''"
  "toUpperCase latin1_methods ''Post'' = ''POST''"
  "toUpperCase latin1_methods ''POST'' = ''POST''"
  "toUpperCase latin1_methods ''GET'' = ''GET''"
  "toUpperCase latin1_methods ''get'' = ''GET''"
  "toUpperCase latin1_methods ''DELETE'' = ''DELETE''"
  by (simp_all add: latin1_methods_def latin1_upper_def char_of_def bit_0)

theorem sw_checkMock_resolve_witness:
  "sw_checkMock latin1_methods (example_storage (Some False))
        \<lparr>url = ''https://api.x/users'', http_method = ''Post''\<rparr> = no_mock
   \<and> sw_checkMock latin1_methods (example_storage None)
        \<lparr>url = ''https://api.x/users'', http_method = ''Post''\<rparr>
     = \<lparr>shouldMock = True, response = Some example_created, ruleId = Some ''rule_2'',
        error = None\<rparr>
   \<and> sw_checkMock latin1_methods (example_storage (Some True))
        \<lparr>url = ''https://api.x/users'', http_method = ''DELETE''\<rparr> = no_mock
   \<and> upper_case_matches latin1_methods (example_rules ! Suc 0) ''https://api.x/users'' ''Post''
     = spec_matches (example_rules ! Suc 0) ''https://api.x/users'' ''Post''
   \<and> sw_checkMock latin1_methods \<lparr>globalEnabled = Some True, mockRules = Some [example_rules ! 3]\<rparr>
        \<lparr>url = ''https://a/b?x=1'', http_method = ''get''\<rparr> = no_mock"
proof (intro conjI)
  have off: "globalEnabled (example_storage (Some False)) = Some False"
    by (simp add: example_storage_def)
  show "sw_checkMock latin1_methods (example_storage (Some False))
          \<lparr>url = ''https://api.x/users'', http_method = ''Post''\<rparr> = no_mock"
    using sw_checkMock_resolve [of "example_storage (Some False)" latin1_methods
        "''https://api.x/users''" "''Post''"]
      off by blast
next
  let ?S = "example_storage None"
  have rs: "stored_rules ?S = example_rules"
    by (simp add: example_storage_def stored_rules_def)
  have on: "globalEnabled ?S \<noteq> Some False"
    by (simp add: example_storage_def)
  have i: "Suc 0 < length (stored_rules ?S)"
    by (simp add: rs example_rules_nth)
  have pre: "upper_case_matches latin1_methods (stored_rules ?S ! Suc 0)
               ''https://api.x/users'' ''Post''
             \<and> (\<forall>j < Suc 0. \<not> upper_case_matches latin1_methods (stored_rules ?S ! j)
                                ''https://api.x/users'' ''Post'')"
    by (simp add: rs example_rules_nth upper_case_matches_def latin1_upper_examples)
  have "sw_checkMock latin1_methods ?S \<lparr>url = ''https://api.x/users'', http_method = ''Post''\<rparr> =
          \<lparr>shouldMock = True, response = Some (rule_response (stored_rules ?S ! Suc 0)),
           ruleId = Some (rule_id (stored_rules ?S ! Suc 0)), error = None\<rparr>"
    using sw_checkMock_resolve [of ?S latin1_methods "''https://api.x/users''" "''Post''"]
      on i pre by blast
  then show "sw_checkMock latin1_methods ?S
       \<lparr>url = ''https://api.x/users'', http_method = ''Post''\<rparr>
     = \<lparr>shouldMock = True, response = Some example_created, ruleId = Some ''rule_2'',
        error = None\<rparr>"
    by (simp add: rs example_rules_nth)
next
  let ?S = "example_storage (Some True)"
  have on: "globalEnabled ?S \<noteq> Some False"
    by (simp add: example_storage_def)
  have pre: "\<forall>r \<in> set (stored_rules ?S).
               \<not> upper_case_matches latin1_methods r ''https://api.x/users'' ''DELETE''"
    by (simp add: example_storage_def stored_rules_def example_rules_def
        upper_case_matches_def latin1_upper_examples)
  show "sw_checkMock latin1_methods ?S
          \<lparr>url = ''https://api.x/users'', http_method = ''DELETE''\<rparr> = no_mock"
    using sw_checkMock_resolve [of ?S latin1_methods "''https://api.x/users''" "''DELETE''"]
      on pre by blast
next
  have pre: "toUpperCase latin1_methods (http_method (request (example_rules ! Suc 0)))
               = ascii_upper (http_method (request (example_rules ! Suc 0)))
             \<and> toUpperCase latin1_methods ''Post'' = ascii_upper ''Post''"
    by (simp add: example_rules_nth latin1_toUpperCase_ascii)
  show "upper_case_matches latin1_methods (example_rules ! Suc 0) ''https://api.x/users'' ''Post''
     = spec_matches (example_rules ! Suc 0) ''https://api.x/users'' ''Post''"
    using sw_checkMock_resolve [of _ latin1_methods "''https://api.x/users''" "''Post''"]
      pre by blast
next
  let ?S = "\<lparr>globalEnabled = Some True, mockRules = Some [example_rules ! 3]\<rparr>"
  have pre: "\<forall>r \<in> set (stored_rules ?S). url (request r) = ''https://a/b''"
    by (simp add: stored_rules_def example_rules_def)
  show "sw_checkMock latin1_methods ?S \<lparr>url = ''https://a/b?x=1'', http_method = ''get''\<rparr>
          = no_mock"
    using sw_checkMock_resolve [of ?S latin1_methods _ "''get''"] pre by blast
qed

section \<open>Query ids\<close>

lemma decimal_nonempty: "decimal n \<noteq> []"
  by (subst decimal.simps) simp

lemma decimal_digits: "c \<in> set (decimal n) \<Longrightarrow> 48 \<le> (of_char c :: nat) \<and> (of_char c :: nat) \<le> 57"
proof (induction n rule: decimal.induct)
  case (1 n)
  show ?case
  proof (cases "n < 10")
    case True
    with "1.prems" have "c = char_of (48 + n)"
      by (subst (asm) decimal.simps) simp
    with True show ?thesis by simp
  next
    case False
    with "1.prems" have "c \<in> set (decimal (n div 10)) \<or> c = char_of (48 + n mod 10)"
      by (subst (asm) decimal.simps) auto
    then show ?thesis
    proof
      assume "c \<in> set (decimal (n div 10))"
      with "1.IH" False show ?thesis by simp
    next
      assume "c = char_of (48 + n mod 10)"
      moreover have "n mod 10 < 10" by simp
      ultimately show ?thesis by (simp add: mod_if)
    qed
  qed
qed

lemma underscore_not_digit: "CHR ''_'' \<notin> set (decimal n)"
proof
  assume "CHR ''_'' \<in> set (decimal n)"
  from decimal_digits[OF this] show False by simp
qed

lemma digit_char_inj: "a < 10 \<Longrightarrow> b < 10 \<Longrightarrow> char_of (48 + a) = (char_of (48 + b) :: char) \<Longrightarrow> a = (b::nat)"
proof -
  assume a: "a < 10" and b: "b < 10" and eq: "char_of (48 + a) = (char_of (48 + b) :: char)"
  from eq have "(of_char (char_of (48 + a) :: char) :: nat) = of_char (char_of (48 + b) :: char)"
    by simp
  with a b show "a = b" by simp
qed

lemma decimal_inj: "decimal a = decimal b \<Longrightarrow> a = b"
proof (induction a arbitrary: b rule: decimal.induct)
  case (1 n)
  show ?case
  proof (cases "n < 10")
    case n: True
    show ?thesis
    proof (cases "b < 10")
      case True
      with n "1.prems" have "char_of (48 + n) = (char_of (48 + b) :: char)"
        by (simp add: decimal.simps[of n] decimal.simps[of b])
      with n True show ?thesis by (rule digit_char_inj)
    next
      case False
      with n "1.prems" have "decimal (b div 10) = []"
        by (simp add: decimal.simps[of n] decimal.simps[of b] Cons_eq_append_conv)
      with decimal_nonempty show ?thesis by blast
    qed
  next
    case n: False
    show ?thesis
    proof (cases "b < 10")
      case True
      with n "1.prems" have "decimal (n div 10) = []"
        by (simp add: decimal.simps[of n] decimal.simps[of b] append_eq_Cons_conv)
      with decimal_nonempty show ?thesis by blast
    next
      case False
      with n "1.prems" have eq: "decimal (n div 10) = decimal (b div 10)"
        and last: "char_of (48 + n mod 10) = (char_of (48 + b mod 10) :: char)"
        by (simp_all add: decimal.simps[of n] decimal.simps[of b])
      from "1.IH"[OF n eq] have "n div 10 = b div 10" .
      moreover have "n mod 10 = b mod 10"
        using last by (intro digit_char_inj) simp_all
      ultimately show ?thesis
        by (metis div_mult_mod_eq)
    qed
  qed
qed

lemma suffix_after_separator:
  "u \<notin> set d \<Longrightarrow> takeWhile (\<lambda>c. c \<noteq> u) (rev (x @ u # d)) = rev d"
proof -
  assume u: "u \<notin> set d"
  have "rev (x @ u # d) = rev d @ u # rev x" by simp
  moreover have "takeWhile (\<lambda>c. c \<noteq> u) (rev d @ u # rev x) = rev d"
    using u by (subst takeWhile_append2) auto
  ultimately show ?thesis by simp
qed

lemma request_id_counter:
  "request_id_string t c = request_id_string t' c' \<Longrightarrow> c = c'"
proof -
  assume eq: "request_id_string t c = request_id_string t' c'"
  let ?u = "CHR ''_''"
  have "rev (decimal c) = takeWhile (\<lambda>x. x \<noteq> ?u) (rev ((''req_'' @ decimal t) @ ?u # decimal c))"
    using suffix_after_separator[OF underscore_not_digit, where n1=c and x="''req_'' @ decimal t"] by simp
  also have "\<dots> = takeWhile (\<lambda>x. x \<noteq> ?u) (rev ((''req_'' @ decimal t') @ ?u # decimal c'))"
    using eq by (simp add: request_id_string_def)
  also have "\<dots> = rev (decimal c')"
    using suffix_after_separator[OF underscore_not_digit, where n1=c' and x="''req_'' @ decimal t'"] by simp
  finally show ?thesis by (simp add: decimal_inj)
qed

lemma request_id_nonempty: "request_id_string t c \<noteq> []"
  by (simp add: request_id_string_def)

section \<open>The invariant of the pending-query registry\<close>

lemma page_invI:
  assumes "\<And>rid e. pendingRequests s rid = Some e \<Longrightarrow>
        timers s (timeout e) = Some (1000, MockCheckTimeout rid (resolve e))
        \<and> resolve e < next_promise s
        \<and> resolve e \<notin> fst ` set (resolve_calls s)
        \<and> (\<exists>now c. rid = request_id_string now c \<and> c \<le> requestCounter s)"
    and "\<And>h d rid p. timers s h = Some (d, MockCheckTimeout rid p) \<Longrightarrow>
        pendingRequests s rid = Some \<lparr>resolve = p, timeout = h\<rparr> \<and> h < next_handle s"
    and "\<And>rid rid' e e'. pendingRequests s rid = Some e \<Longrightarrow> pendingRequests s rid' = Some e' \<Longrightarrow>
        resolve e = resolve e' \<Longrightarrow> rid = rid'"
    and "\<And>p. p \<in> fst ` set (resolve_calls s) \<Longrightarrow> p < next_promise s"
    and "distinct (map fst (resolve_calls s))"
  shows "page_inv s"
  unfolding page_inv_def
proof (intro conjI allI impI ballI)
  fix rid e assume p: "pendingRequests s rid = Some e"
  note a = assms(1)[OF p]
  show "timers s (timeout e) = Some (1000, MockCheckTimeout rid (resolve e))"
    by (rule a[THEN conjunct1])
  show "resolve e < next_promise s"
    by (rule a[THEN conjunct2, THEN conjunct1])
  show "resolve e \<notin> fst ` set (resolve_calls s)"
    by (rule a[THEN conjunct2, THEN conjunct2, THEN conjunct1])
  show "\<exists>now c. rid = request_id_string now c \<and> c \<le> requestCounter s"
    by (rule a[THEN conjunct2, THEN conjunct2, THEN conjunct2])
next
  fix h d rid p assume t: "timers s h = Some (d, MockCheckTimeout rid p)"
  show "pendingRequests s rid = Some \<lparr>resolve = p, timeout = h\<rparr>"
    by (rule assms(2)[OF t, THEN conjunct1])
  show "h < next_handle s"
    by (rule assms(2)[OF t, THEN conjunct2])
next
  fix rid rid' e e'
  assume "pendingRequests s rid = Some e" "pendingRequests s rid' = Some e'" "resolve e = resolve e'"
  then show "rid = rid'" by (rule assms(3))
next
  fix p assume "p \<in> fst ` set (resolve_calls s)"
  then show "p < next_promise s" by (rule assms(4))
next
  show "distinct (map fst (resolve_calls s))" by (rule assms(5))
qed

lemma page_inv_pending:
  assumes "page_inv s" and p: "pendingRequests s rid = Some e"
  shows "timers s (timeout e) = Some (1000, MockCheckTimeout rid (resolve e))"
    and "resolve e < next_promise s"
    and "resolve e \<notin> fst ` set (resolve_calls s)"
    and "\<exists>now c. rid = request_id_string now c \<and> c \<le> requestCounter s"
proof -
  from assms(1) have "\<forall>rid e. pendingRequests s rid = Some e \<longrightarrow>
        timers s (timeout e) = Some (1000, MockCheckTimeout rid (resolve e))
        \<and> resolve e < next_promise s
        \<and> resolve e \<notin> fst ` set (resolve_calls s)
        \<and> (\<exists>now c. rid = request_id_string now c \<and> c \<le> requestCounter s)"
    unfolding page_inv_def by (rule conjunct1)
  note all = this[rule_format, OF p]
  show "timers s (timeout e) = Some (1000, MockCheckTimeout rid (resolve e))"
    by (rule all[THEN conjunct1])
  show "resolve e < next_promise s"
    by (rule all[THEN conjunct2, THEN conjunct1])
  show "resolve e \<notin> fst ` set (resolve_calls s)"
    by (rule all[THEN conjunct2, THEN conjunct2, THEN conjunct1])
  show "\<exists>now c. rid = request_id_string now c \<and> c \<le> requestCounter s"
    by (rule all[THEN conjunct2, THEN conjunct2, THEN conjunct2])
qed

lemma page_inv_timer:
  assumes "page_inv s" and t: "timers s h = Some (d, MockCheckTimeout rid p)"
  shows "pendingRequests s rid = Some \<lparr>resolve = p, timeout = h\<rparr>" and "h < next_handle s"
proof -
  from assms(1) have "\<forall>h d rid p. timers s h = Some (d, MockCheckTimeout rid p) \<longrightarrow>
        pendingRequests s rid = Some \<lparr>resolve = p, timeout = h\<rparr> \<and> h < next_handle s"
    unfolding page_inv_def by (rule conjunct2[THEN conjunct1])
  note all = this[rule_format, OF t]
  show "pendingRequests s rid = Some \<lparr>resolve = p, timeout = h\<rparr>" by (rule all[THEN conjunct1])
  show "h < next_handle s" by (rule all[THEN conjunct2])
qed

lemma page_inv_promise_owner:
  assumes "page_inv s" and "pendingRequests s rid = Some e" and "pendingRequests s rid' = Some e'"
    and "resolve e = resolve e'"
  shows "rid = rid'"
proof -
  from assms(1) have "\<forall>rid rid' e e'. pendingRequests s rid = Some e \<longrightarrow>
        pendingRequests s rid' = Some e' \<longrightarrow> resolve e = resolve e' \<longrightarrow> rid = rid'"
    unfolding page_inv_def by (rule conjunct2[THEN conjunct2, THEN conjunct1])
  from this[rule_format, OF assms(2,3,4)] show ?thesis .
qed

lemma page_inv_resolved:
  assumes "page_inv s"
  shows "p \<in> fst ` set (resolve_calls s) \<Longrightarrow> p < next_promise s"
    and "distinct (map fst (resolve_calls s))"
proof -
  from assms have a: "\<forall>p \<in> fst ` set (resolve_calls s). p < next_promise s"
    unfolding page_inv_def by (rule conjunct2[THEN conjunct2, THEN conjunct2, THEN conjunct1])
  from assms have b: "distinct (map fst (resolve_calls s))"
    unfolding page_inv_def by (rule conjunct2[THEN conjunct2, THEN conjunct2, THEN conjunct2])
  show "p \<in> fst ` set (resolve_calls s) \<Longrightarrow> p < next_promise s" using a by (rule bspec)
  show "distinct (map fst (resolve_calls s))" by (rule b)
qed

lemma checkMock_fields:
  "fst (checkMock now u m s) = next_promise s"
  "pendingRequests (snd (checkMock now u m s)) =
     (pendingRequests s)(request_id_string now (requestCounter s + 1) \<mapsto>
        \<lparr>resolve = next_promise s, timeout = next_handle s\<rparr>)"
  "timers (snd (checkMock now u m s)) =
     (timers s)(next_handle s \<mapsto>
        (1000, MockCheckTimeout (request_id_string now (requestCounter s + 1)) (next_promise s)))"
  "requestCounter (snd (checkMock now u m s)) = requestCounter s + 1"
  "next_handle (snd (checkMock now u m s)) = next_handle s + 1"
  "next_promise (snd (checkMock now u m s)) = next_promise s + 1"
  "resolve_calls (snd (checkMock now u m s)) = resolve_calls s"
  "posted (snd (checkMock now u m s)) = posted s @
     [\<lparr>source = ''api-mocker-injected'', msg_type = ''CHECK_MOCK'',
       requestId = request_id_string now (requestCounter s + 1),
       payload = \<lparr>url = u, http_method = m\<rparr>\<rparr>]"
  by (simp_all add: checkMock_def generateRequestId_def setTimeout_def Let_def)

lemma fresh_request_id:
  assumes "page_inv s"
  shows "pendingRequests s (request_id_string now (requestCounter s + 1)) = None"
proof (cases "pendingRequests s (request_id_string now (requestCounter s + 1))")
  case None
  then show ?thesis .
next
  case (Some e)
  from page_inv_pending(4)[OF assms Some] obtain t c
    where eq: "request_id_string now (requestCounter s + 1) = request_id_string t c"
      and le: "c \<le> requestCounter s"
    by blast
  from request_id_counter[OF eq] le show ?thesis by simp
qed

lemma fresh_handle:
  assumes "page_inv s"
  shows "timers s (next_handle s) = None"
proof (cases "timers s (next_handle s)")
  case None
  then show ?thesis .
next
  case (Some dc)
  obtain d rid p where "dc = (d, MockCheckTimeout rid p)"
    by (cases dc, rename_tac d cb, case_tac cb) simp
  with Some have "timers s (next_handle s) = Some (d, MockCheckTimeout rid p)" by simp
  from page_inv_timer(2)[OF assms this] show ?thesis by simp
qed

lemma page_inv_checkMock:
  assumes inv: "page_inv s"
  shows "page_inv (snd (checkMock now u m s))"
proof (rule page_invI; (unfold checkMock_fields)?)
  let ?rid = "request_id_string now (requestCounter s + 1)"
  let ?new = "\<lparr>resolve = next_promise s, timeout = next_handle s\<rparr>"
  note fr = fresh_request_id[OF inv, of now] fresh_handle[OF inv]
  {
    fix rid e
    assume a: "((pendingRequests s)(?rid \<mapsto> ?new)) rid = Some e"
    show "((timers s)(next_handle s \<mapsto> (1000, MockCheckTimeout ?rid (next_promise s)))) (timeout e)
            = Some (1000, MockCheckTimeout rid (resolve e))
          \<and> resolve e < next_promise s + 1
          \<and> resolve e \<notin> fst ` set (resolve_calls s)
          \<and> (\<exists>now c. rid = request_id_string now c \<and> c \<le> requestCounter s + 1)"
    proof (cases "rid = ?rid")
      case True
      with a have e: "e = ?new" by simp
      have "next_promise s \<notin> fst ` set (resolve_calls s)"
        using page_inv_resolved(1)[OF inv, of "next_promise s"] by blast
      moreover have "\<exists>now c. rid = request_id_string now c \<and> c \<le> requestCounter s + 1"
        using True by blast
      ultimately show ?thesis using True e by simp
    next
      case False
      with a have p: "pendingRequests s rid = Some e" by simp
      note P = page_inv_pending[OF inv p]
      have "timeout e \<noteq> next_handle s" using P(1) fr(2) by auto
      moreover obtain t c where "rid = request_id_string t c" "c \<le> requestCounter s"
        using P(4) by blast
      then have "\<exists>now c. rid = request_id_string now c \<and> c \<le> requestCounter s + 1"
        by (intro exI[of _ t] exI[of _ c]) simp
      ultimately show ?thesis using P(1,2,3) by simp
    qed
  next
    fix h d rid p
    assume a: "((timers s)(next_handle s \<mapsto> (1000, MockCheckTimeout ?rid (next_promise s)))) h
                = Some (d, MockCheckTimeout rid p)"
    show "((pendingRequests s)(?rid \<mapsto> ?new)) rid = Some \<lparr>resolve = p, timeout = h\<rparr>
          \<and> h < next_handle s + 1"
    proof (cases "h = next_handle s")
      case True
      with a show ?thesis by simp
    next
      case False
      with a have t: "timers s h = Some (d, MockCheckTimeout rid p)" by simp
      note T = page_inv_timer[OF inv t]
      have "rid \<noteq> ?rid" using T(1) fr(1) by auto
      with T show ?thesis by simp
    qed
  next
    fix rid rid' e e'
    assume a: "((pendingRequests s)(?rid \<mapsto> ?new)) rid = Some e"
      and b: "((pendingRequests s)(?rid \<mapsto> ?new)) rid' = Some e'"
      and eq: "resolve e = resolve e'"
    show "rid = rid'"
    proof (cases "rid = ?rid"; cases "rid' = ?rid")
      assume "rid = ?rid" "rid' = ?rid"
      then show ?thesis by simp
    next
      assume r: "rid = ?rid" "rid' \<noteq> ?rid"
      with a b have "resolve e = next_promise s" "pendingRequests s rid' = Some e'" by auto
      with page_inv_pending(2)[OF inv, of rid' e'] eq show ?thesis by simp
    next
      assume r: "rid \<noteq> ?rid" "rid' = ?rid"
      with a b have "resolve e' = next_promise s" "pendingRequests s rid = Some e" by auto
      with page_inv_pending(2)[OF inv, of rid e] eq show ?thesis by simp
    next
      assume r: "rid \<noteq> ?rid" "rid' \<noteq> ?rid"
      with a b have "pendingRequests s rid = Some e" "pendingRequests s rid' = Some e'" by auto
      then show ?thesis using eq by (rule page_inv_promise_owner[OF inv])
    qed
  next
    fix p assume "p \<in> fst ` set (resolve_calls s)"
    then show "p < next_promise s + 1"
      using page_inv_resolved(1)[OF inv, of p] by simp
  next
    show "distinct (map fst (resolve_calls s))" by (rule page_inv_resolved(2)[OF inv])
  }
qed

lemma settle_fields:
  "pendingRequests (settle rid e v s) = (pendingRequests s)(rid := None)"
  "timers (settle rid e v s) = (timers s)(timeout e := None)"
  "resolve_calls (settle rid e v s) = resolve_calls s @ [(resolve e, v)]"
  "requestCounter (settle rid e v s) = requestCounter s"
  "next_handle (settle rid e v s) = next_handle s"
  "next_promise (settle rid e v s) = next_promise s"
  "posted (settle rid e v s) = posted s"
  by (simp_all add: settle_def)

lemma page_inv_settle:
  assumes inv: "page_inv s" and p: "pendingRequests s rid = Some e"
  shows "page_inv (settle rid e v s)"
proof (rule page_invI; (unfold settle_fields)?)
  note E = page_inv_pending[OF inv p]
  {
    fix rid' e'
    assume a: "((pendingRequests s)(rid := None)) rid' = Some e'"
    then have ne: "rid' \<noteq> rid" and p': "pendingRequests s rid' = Some e'"
      by (auto split: if_splits)
    note P = page_inv_pending[OF inv p']
    have "timeout e' \<noteq> timeout e"
      using P(1) E(1) ne by auto
    moreover have "resolve e' \<noteq> resolve e"
      using page_inv_promise_owner[OF inv p' p] ne by blast
    ultimately show "((timers s)(timeout e := None)) (timeout e')
            = Some (1000, MockCheckTimeout rid' (resolve e'))
          \<and> resolve e' < next_promise s
          \<and> resolve e' \<notin> fst ` set (resolve_calls s @ [(resolve e, v)])
          \<and> (\<exists>now c. rid' = request_id_string now c \<and> c \<le> requestCounter s)"
      using P by simp
  next
    fix h d rid' q
    assume a: "((timers s)(timeout e := None)) h = Some (d, MockCheckTimeout rid' q)"
    then have ne: "h \<noteq> timeout e" and t: "timers s h = Some (d, MockCheckTimeout rid' q)"
      by (auto split: if_splits)
    note T = page_inv_timer[OF inv t]
    have "rid' \<noteq> rid"
      using T(1) p ne by auto
    with T show "((pendingRequests s)(rid := None)) rid' = Some \<lparr>resolve = q, timeout = h\<rparr>
          \<and> h < next_handle s"
      by simp
  next
    fix r r' a b
    assume "((pendingRequests s)(rid := None)) r = Some a"
      and "((pendingRequests s)(rid := None)) r' = Some b" and eq: "resolve a = resolve b"
    then have "pendingRequests s r = Some a" "pendingRequests s r' = Some b"
      by (auto split: if_splits)
    then show "r = r'" using eq by (rule page_inv_promise_owner[OF inv])
  next
    fix q assume "q \<in> fst ` set (resolve_calls s @ [(resolve e, v)])"
    then have "q \<in> fst ` set (resolve_calls s) \<or> q = resolve e" by auto
    then show "q < next_promise s"
      using page_inv_resolved(1)[OF inv, of q] E(2) by blast
  next
    show "distinct (map fst (resolve_calls s @ [(resolve e, v)]))"
      using page_inv_resolved(2)[OF inv] E(3) by simp
  }
qed

lemma run_timer_active:
  assumes inv: "page_inv s" and t: "timers s h = Some (d, MockCheckTimeout rid p)"
  shows "run_timer h s = settle rid \<lparr>resolve = p, timeout = h\<rparr> (Some no_mock) s"
  using t by (simp add: run_timer_def settle_def clearTimeout_def call_resolve_def)

lemma run_timer_inactive: "timers s h = None \<Longrightarrow> run_timer h s = s"
  by (simp add: run_timer_def)

lemma page_inv_run_timer:
  assumes inv: "page_inv s"
  shows "page_inv (run_timer h s)"
proof (cases "timers s h")
  case None
  then show ?thesis using inv by (simp add: run_timer_inactive)
next
  case (Some dc)
  obtain d rid p where dc: "dc = (d, MockCheckTimeout rid p)"
    by (cases dc, rename_tac d cb, case_tac cb) simp
  with Some have t: "timers s h = Some (d, MockCheckTimeout rid p)" by simp
  show ?thesis
    unfolding run_timer_active[OF inv t]
    by (rule page_inv_settle[OF inv page_inv_timer(1)[OF inv t]])
qed

lemma on_message_cases:
  "on_message event s =
     (if accepted event then
        (case pendingRequests s (requestId (the (data event))) of
           None \<Rightarrow> s
         | Some e \<Rightarrow> settle (requestId (the (data event))) e (payload (the (data event))) s)
      else s)"
  by (auto simp add: on_message_def accepted_def settle_def clearTimeout_def call_resolve_def
      Let_def split: option.splits)

lemma page_inv_on_message:
  assumes inv: "page_inv s"
  shows "page_inv (on_message event s)"
  unfolding on_message_cases
  using inv by (auto split: option.splits intro: page_inv_settle)

lemma page_inv_initial: "page_inv initial_page"
  by (simp add: page_inv_def initial_page_def)

lemma page_inv_step: "page_inv s \<Longrightarrow> page_inv (page_step s ev)"
  by (cases ev) (simp_all add: page_inv_checkMock page_inv_run_timer page_inv_on_message)

lemma page_inv_foldl: "page_inv s \<Longrightarrow> page_inv (foldl page_step s evs)"
  by (induction evs arbitrary: s) (simp_all add: page_inv_step)

lemma page_inv_run_page: "page_inv (run_page evs)"
  unfolding run_page_def by (rule page_inv_foldl[OF page_inv_initial])

section \<open>Entries stay until settled, and stay away afterwards\<close>

lemma on_message_absent:
  "pendingRequests s rid = None \<Longrightarrow>
     on_message \<lparr>from_window = w, data = Some \<lparr>source = src, msg_type = ty, requestId = rid,
                                             payload = v\<rparr>\<rparr> s = s"
  by (simp add: on_message_def)

lemma on_message_reply:
  "rid \<noteq> [] \<Longrightarrow> pendingRequests s rid = Some e \<Longrightarrow>
     on_message (mock_reply rid v) s = settle rid e v s"
  by (simp add: on_message_cases accepted_def mock_reply_def delivered_def)

lemma on_message_frame:
  "rid \<noteq> requestId d \<Longrightarrow>
     pendingRequests (on_message \<lparr>from_window = w, data = Some d\<rparr> s) rid = pendingRequests s rid"
  by (simp add: on_message_cases settle_fields split: option.splits)

lemma on_message_settles:
  assumes "accepted ev" and "map_option requestId (data ev) = Some rid"
    and "pendingRequests s rid = Some e"
  shows "on_message ev s = settle rid e (payload (the (data ev))) s"
  using assms by (auto simp add: on_message_cases)

lemma step_keeps_entry:
  assumes inv: "page_inv s" and p: "pendingRequests s rid = Some e"
    and quiet: "\<not> settles rid (timeout e) ev"
  shows "pendingRequests (page_step s ev) rid = Some e"
proof (cases ev)
  case (CallCheckMock now u m)
  have "request_id_string now (requestCounter s + 1) \<noteq> rid"
    using fresh_request_id[OF inv, of now] p by auto
  then show ?thesis using p CallCheckMock by (simp add: checkMock_fields)
next
  case (TimerFires h)
  with quiet have ne: "h \<noteq> timeout e" by simp
  show ?thesis
  proof (cases "timers s h")
    case None
    then show ?thesis using p TimerFires by (simp add: run_timer_inactive)
  next
    case (Some dc)
    obtain d rid' q where dc: "dc = (d, MockCheckTimeout rid' q)"
      by (cases dc, rename_tac d cb, case_tac cb) simp
    with Some have t: "timers s h = Some (d, MockCheckTimeout rid' q)" by simp
    have "rid' \<noteq> rid"
      using page_inv_timer(1)[OF inv t] p ne by auto
    then show ?thesis
      using p TimerFires by (simp add: run_timer_active[OF inv t] settle_fields)
  qed
next
  case (MessageArrives m)
  show ?thesis
  proof (cases "accepted m")
    case False
    then show ?thesis using p MessageArrives by (simp add: on_message_cases)
  next
    case True
    then obtain d where d: "data m = Some d" by (auto simp: accepted_def split: option.splits)
    with quiet True MessageArrives have "requestId d \<noteq> rid" by simp
    then show ?thesis
      using p MessageArrives d True
      by (simp add: on_message_cases settle_fields split: option.splits)
  qed
qed

lemma steps_keep_entry:
  assumes "page_inv s" and "pendingRequests s rid = Some e"
    and "list_all (\<lambda>ev. \<not> settles rid (timeout e) ev) later"
  shows "pendingRequests (foldl page_step s later) rid = Some e \<and> page_inv (foldl page_step s later)"
  using assms
proof (induction later arbitrary: s)
  case Nil
  then show ?case by simp
next
  case (Cons ev later)
  have "page_inv (page_step s ev)" using Cons.prems(1) by (rule page_inv_step)
  moreover have "pendingRequests (page_step s ev) rid = Some e"
    using Cons.prems by (intro step_keeps_entry) simp_all
  ultimately show ?case using Cons.IH[of "page_step s ev"] Cons.prems(3) by simp
qed

lemma requestCounter_step: "requestCounter s \<le> requestCounter (page_step s ev)"
proof (cases ev)
  case (CallCheckMock now u m)
  then show ?thesis by (simp add: checkMock_fields)
next
  case (TimerFires h)
  then show ?thesis
    by (simp add: run_timer_def clearTimeout_def call_resolve_def split: option.splits timer_callback.splits)
next
  case (MessageArrives m)
  then show ?thesis by (simp add: on_message_cases settle_fields split: option.splits)
qed

lemma issued_step:
  assumes "issued s rid"
  shows "issued (page_step s ev) rid"
proof -
  from assms obtain t c where "rid = request_id_string t c" and "c \<le> requestCounter s"
    unfolding issued_def by blast
  moreover have "c \<le> requestCounter (page_step s ev)"
    using calculation(2) requestCounter_step[of s ev] by (rule le_trans)
  ultimately show ?thesis unfolding issued_def by blast
qed

lemma step_keeps_absent:
  assumes iss: "issued s rid" and absent: "pendingRequests s rid = None"
  shows "pendingRequests (page_step s ev) rid = None"
proof (cases ev)
  case (CallCheckMock now u m)
  from iss obtain t c where rid: "rid = request_id_string t c" and c: "c \<le> requestCounter s"
    unfolding issued_def by blast
  have "request_id_string now (requestCounter s + 1) \<noteq> rid"
  proof
    assume "request_id_string now (requestCounter s + 1) = rid"
    with rid have "requestCounter s + 1 = c" by (simp add: request_id_counter)
    with c show False by simp
  qed
  then show ?thesis using absent CallCheckMock by (simp add: checkMock_fields)
next
  case (TimerFires h)
  then show ?thesis using absent
    by (simp add: run_timer_def clearTimeout_def call_resolve_def split: option.splits timer_callback.splits)
next
  case (MessageArrives m)
  then show ?thesis using absent
    by (simp add: on_message_cases settle_fields split: option.splits)
qed

lemma resolve_calls_step: "\<exists>more. resolve_calls (page_step s ev) = resolve_calls s @ more"
proof (cases ev)
  case (CallCheckMock now u m)
  then show ?thesis by (simp add: checkMock_fields)
next
  case (TimerFires h)
  then show ?thesis
    by (simp add: run_timer_def clearTimeout_def call_resolve_def split: option.splits timer_callback.splits)
next
  case (MessageArrives m)
  then show ?thesis by (simp add: on_message_cases settle_fields split: option.splits)
qed

lemma steps_keep_absent:
  assumes "issued s rid" and "pendingRequests s rid = None" and "x \<in> set (resolve_calls s)"
  shows "pendingRequests (foldl page_step s later) rid = None
         \<and> x \<in> set (resolve_calls (foldl page_step s later))"
  using assms
proof (induction later arbitrary: s)
  case Nil
  then show ?case by simp
next
  case (Cons ev later)
  have "issued (page_step s ev) rid" using Cons.prems(1) by (rule issued_step)
  moreover have "pendingRequests (page_step s ev) rid = None"
    using Cons.prems(1,2) by (rule step_keeps_absent)
  moreover have "x \<in> set (resolve_calls (page_step s ev))"
    using resolve_calls_step[of s ev] Cons.prems(3) by auto
  ultimately show ?case using Cons.IH[of "page_step s ev"] by simp
qed

lemma step_settles:
  assumes inv: "page_inv s" and p: "pendingRequests s rid = Some e"
    and ev: "settles rid (timeout e) ev"
  shows "\<exists>v. page_step s ev = settle rid e v s"
proof (cases ev)
  case (CallCheckMock now u m)
  with ev show ?thesis by simp
next
  case (TimerFires h)
  with ev have h: "h = timeout e" by simp
  have t: "timers s h = Some (1000, MockCheckTimeout rid (resolve e))"
    using page_inv_pending(1)[OF inv p] h by simp
  have "\<lparr>resolve = resolve e, timeout = h\<rparr> = e" using h by simp
  then show ?thesis
    using TimerFires run_timer_active[OF inv t] by auto
next
  case (MessageArrives m)
  with ev have "accepted m" "map_option requestId (data m) = Some rid" by simp_all
  from on_message_settles[OF this p] MessageArrives show ?thesis by auto
qed

section \<open>Claim C2: timeout and transport failure\<close>

lemma relay_forward_throws:
  assumes "sendMessage q = Inl msg"
  shows "relay_on_message sendMessage
           (delivered \<lparr>source = ''api-mocker-injected'', msg_type = ''CHECK_MOCK'',
                       requestId = rid, payload = q\<rparr>)
         = [\<lparr>source = ''api-mocker-content'', msg_type = ''MOCK_RESPONSE'', requestId = rid,
             payload = Some (transport_failure msg)\<rparr>]"
  using assms by (simp add: relay_on_message_def delivered_def transport_failure_def)

lemma fetch_resume_unmocked:
  "\<not> (shouldMock d \<and> response d \<noteq> None) \<Longrightarrow>
     fetch_resume originalFetch args (Some d) calls
       = (FromOriginal (originalFetch args), calls @ [args])"
  by (auto simp add: fetch_resume_def)

lemma xhr_send_resume_unmocked:
  "\<not> (shouldMock d \<and> response d \<noteq> None) \<Longrightarrow>
     xhr_send_resume originalSend xhr info b (Some d) sent
       = (SentOriginal (originalSend b), sent @ [b])"
  by (auto simp add: xhr_send_resume_def)

text \<open>
  C2. Take any state the page context can reach, and a mock check issued there for
  \<open>(u, m)\<close>: it makes the entry \<open>rid\<close> with a timer of 1000 ms. As long as no reply for
  \<open>rid\<close> has been accepted and the timer has not run (whatever else happened: the events
  \<open>later\<close>), the entry is still pending and its promise unresolved. When the timer then
  runs, the entry is removed and the promise is resolved with \<^verbatim>\<open>{shouldMock:false}\<close>. When
  forwarding the query throws, the relay posts a reply for \<open>rid\<close> whose payload has
  \<^verbatim>\<open>shouldMock:false\<close> (and the error's message); on its arrival the entry is removed and
  the promise is resolved with that payload. On either value both shims call the original
  primitive: no error reaches the page.
\<close>

theorem mock_check_degrades:
  assumes s1: "s1 = snd (checkMock now u m (run_page evs))"
    and rid: "rid = request_id_string now (requestCounter (run_page evs) + 1)"
    and h: "h = next_handle (run_page evs)"
    and p: "p = fst (checkMock now u m (run_page evs))"
    and quiet: "list_all (\<lambda>ev. \<not> settles rid h ev) later"
    and s2: "s2 = foldl page_step s1 later"
  shows "pendingRequests s1 rid = Some \<lparr>resolve = p, timeout = h\<rparr>
       \<and> timers s1 h = Some (1000, MockCheckTimeout rid p)
       \<and> pendingRequests s2 rid = Some \<lparr>resolve = p, timeout = h\<rparr>
       \<and> p \<notin> fst ` set (resolve_calls s2)
       \<and> pendingRequests (page_step s2 (TimerFires h)) rid = None
       \<and> resolve_calls (page_step s2 (TimerFires h)) = resolve_calls s2 @ [(p, Some no_mock)]
       \<and> (sendMessage \<lparr>url = u, http_method = m\<rparr> = Inl msg \<longrightarrow>
            relay_on_message sendMessage (delivered (last (posted s1)))
              = [\<lparr>source = ''api-mocker-content'', msg_type = ''MOCK_RESPONSE'', requestId = rid,
                  payload = Some (transport_failure msg)\<rparr>]
            \<and> pendingRequests (page_step s2 (MessageArrives
                  (mock_reply rid (Some (transport_failure msg))))) rid = None
            \<and> resolve_calls (page_step s2 (MessageArrives
                  (mock_reply rid (Some (transport_failure msg)))))
                = resolve_calls s2 @ [(p, Some (transport_failure msg))])
       \<and> (\<forall>d \<in> {no_mock, transport_failure msg}.
            fetch_resume originalFetch args (Some d) calls
              = (FromOriginal (originalFetch args), calls @ [args])
            \<and> xhr_send_resume originalSend xhr info b (Some d) sent
              = (SentOriginal (originalSend b), sent @ [b]))"
proof -
  let ?e = "\<lparr>resolve = p, timeout = h\<rparr>"
  have inv0: "page_inv (run_page evs)" by (rule page_inv_run_page)
  have inv1: "page_inv s1" unfolding s1 by (rule page_inv_checkMock[OF inv0])
  have e1: "pendingRequests s1 rid = Some ?e"
    by (simp add: s1 rid h p checkMock_fields)
  have t1: "timers s1 h = Some (1000, MockCheckTimeout rid p)"
    by (simp add: s1 rid h p checkMock_fields)
  have quiet': "list_all (\<lambda>ev. \<not> settles rid (timeout ?e) ev) later"
    using quiet by simp
  from steps_keep_entry[OF inv1 e1 quiet']
  have e2: "pendingRequests s2 rid = Some ?e" and inv2: "page_inv s2"
    unfolding s2 by simp_all
  have fresh: "p \<notin> fst ` set (resolve_calls s2)"
    using page_inv_pending(3)[OF inv2 e2] by simp
  have t2: "timers s2 h = Some (1000, MockCheckTimeout rid p)"
    using page_inv_pending(1)[OF inv2 e2] by simp
  have fire: "page_step s2 (TimerFires h) = settle rid ?e (Some no_mock) s2"
    using run_timer_active[OF inv2 t2] by simp
  have nonempty: "rid \<noteq> []" unfolding rid by (rule request_id_nonempty)
  have reply: "page_step s2 (MessageArrives (mock_reply rid v)) = settle rid ?e v s2" for v
    using on_message_reply[OF nonempty e2] by simp
  have posted: "last (posted s1) = \<lparr>source = ''api-mocker-injected'', msg_type = ''CHECK_MOCK'',
       requestId = rid, payload = \<lparr>url = u, http_method = m\<rparr>\<rparr>"
    by (simp add: s1 rid checkMock_fields)
  have consumer: "\<forall>d \<in> {no_mock, transport_failure msg}.
            fetch_resume originalFetch args (Some d) calls
              = (FromOriginal (originalFetch args), calls @ [args])
            \<and> xhr_send_resume originalSend xhr info b (Some d) sent
              = (SentOriginal (originalSend b), sent @ [b])"
    by (simp add: fetch_resume_unmocked xhr_send_resume_unmocked no_mock_def transport_failure_def)
  show ?thesis
  proof (intro conjI impI)
    show "pendingRequests s1 rid = Some ?e" by (rule e1)
    show "timers s1 h = Some (1000, MockCheckTimeout rid p)" by (rule t1)
    show "pendingRequests s2 rid = Some ?e" by (rule e2)
    show "p \<notin> fst ` set (resolve_calls s2)" by (rule fresh)
    show "pendingRequests (page_step s2 (TimerFires h)) rid = None"
      by (simp only: fire settle_fields) simp
    show "resolve_calls (page_step s2 (TimerFires h)) = resolve_calls s2 @ [(p, Some no_mock)]"
      by (simp only: fire settle_fields) simp
    show "\<forall>d \<in> {no_mock, transport_failure msg}.
            fetch_resume originalFetch args (Some d) calls
              = (FromOriginal (originalFetch args), calls @ [args])
            \<and> xhr_send_resume originalSend xhr info b (Some d) sent
              = (SentOriginal (originalSend b), sent @ [b])"
      by (rule consumer)
  next
    assume "sendMessage \<lparr>url = u, http_method = m\<rparr> = Inl msg"
    then show "relay_on_message sendMessage (delivered (last (posted s1)))
              = [\<lparr>source = ''api-mocker-content'', msg_type = ''MOCK_RESPONSE'', requestId = rid,
                  payload = Some (transport_failure msg)\<rparr>]"
      unfolding posted by (rule relay_forward_throws)
  next
    show "pendingRequests (page_step s2 (MessageArrives
                  (mock_reply rid (Some (transport_failure msg))))) rid = None"
      by (simp only: reply settle_fields) simp
    show "resolve_calls (page_step s2 (MessageArrives
                  (mock_reply rid (Some (transport_failure msg)))))
                = resolve_calls s2 @ [(p, Some (transport_failure msg))]"
      by (simp only: reply settle_fields) simp
  qed
qed

lemma run_page_Nil: "run_page [] = initial_page"
  by (simp add: run_page_def)

lemma request_id_distinct_example: "request_id_string 6 2 \<noteq> request_id_string 5 1"
  using request_id_counter[of 6 2 5 1] by auto

theorem mock_check_degrades_witness:
  "pendingRequests example_page (request_id_string 5 1) = Some \<lparr>resolve = 0, timeout = 1\<rparr>
   \<and> pendingRequests (page_step example_page (TimerFires 1)) (request_id_string 5 1) = None
   \<and> resolve_calls (page_step example_page (TimerFires 1)) = [(0, Some no_mock)]
   \<and> relay_on_message (\<lambda>q. Inl ''unreachable'')
        (delivered (last (posted (snd (checkMock 5 ''https://a/b'' ''GET'' (run_page []))))))
      = [\<lparr>source = ''api-mocker-content'', msg_type = ''MOCK_RESPONSE'',
          requestId = request_id_string 5 1,
          payload = Some (transport_failure ''unreachable'')\<rparr>]
   \<and> resolve_calls (page_step example_page (MessageArrives
         (mock_reply (request_id_string 5 1) (Some (transport_failure ''unreachable'')))))
      = [(0, Some (transport_failure ''unreachable''))]
   \<and> fetch_resume (\<lambda>a. ()) \<lparr>arg_input = Stringable ''/b'', arg_init = None\<rparr>
        (Some (transport_failure ''unreachable'')) []
      = (FromOriginal (), [\<lparr>arg_input = Stringable ''/b'', arg_init = None\<rparr>])"
proof -
  have quiet: "list_all (\<lambda>ev. \<not> settles (request_id_string 5 (requestCounter (run_page []) + 1))
                  (next_handle (run_page [])) ev) [CallCheckMock 6 ''https://c/d'' ''POST'']"
    by simp
  have failing: "(\<lambda>q. Inl ''unreachable'' :: string + decision option)
                   \<lparr>url = ''https://a/b'', http_method = ''GET''\<rparr> = Inl ''unreachable''"
    by simp
  have calls: "resolve_calls example_page = []"
    by (simp add: example_page_def run_page_Nil initial_page_def checkMock_fields)
  have member: "transport_failure ''unreachable'' \<in> {no_mock, transport_failure ''unreachable''}"
    by simp
  note T = mock_check_degrades
    [where evs = "[]" and now = 5 and u = "''https://a/b''" and m = "''GET''"
       and later = "[CallCheckMock 6 ''https://c/d'' ''POST'']"
       and sendMessage = "\<lambda>q. Inl ''unreachable''" and msg = "''unreachable''"
       and originalFetch = "\<lambda>a. ()" and calls = "[]"
       and args = "\<lparr>arg_input = Stringable ''/b'', arg_init = None\<rparr>",
     OF refl refl refl refl quiet refl, folded example_page_def]
  have ids: "request_id_string 5 (requestCounter (run_page []) + 1) = request_id_string 5 1"
    "next_handle (run_page []) = 1" "fst (checkMock 5 ''https://a/b'' ''GET'' (run_page [])) = 0"
    by (simp_all add: run_page_Nil initial_page_def checkMock_fields)
  note T' = T[unfolded ids calls]
  show ?thesis
    using T' failing member by (simp add: calls)
qed

section \<open>Claim C3: a settled query is settled once\<close>

lemma resolved_once:
  "distinct (map fst xs) \<Longrightarrow> (p, v) \<in> set xs \<Longrightarrow> length (filter (\<lambda>c. fst c = p) xs) = 1"
proof (induction xs)
  case Nil
  then show ?case by simp
next
  case (Cons x xs)
  show ?case
  proof (cases "fst x = p")
    case True
    with Cons.prems(1) have "p \<notin> fst ` set xs" by auto
    then have "filter (\<lambda>c. fst c = p) xs = []"
      by (auto simp add: filter_empty_conv)
    with True show ?thesis by simp
  next
    case False
    with Cons.prems(2) have "(p, v) \<in> set xs" by auto
    with Cons.IH Cons.prems(1) False show ?thesis by simp
  qed
qed

lemma issued_pending:
  "page_inv s \<Longrightarrow> pendingRequests s rid = Some e \<Longrightarrow> issued s rid"
  unfolding issued_def by (rule page_inv_pending(4))

lemma issued_settle: "issued s rid \<Longrightarrow> issued (settle rid' e v s) rid"
  by (simp add: issued_def settle_fields)

text \<open>
  C3. In any state the page context can reach, let the entry \<open>rid\<close> be pending and let the
  next event settle it (an accepted reply for \<open>rid\<close>, or its timer). Then the entry is
  removed, and after any further events \<open>later\<close> it is still absent; a message carrying
  \<open>rid\<close> that arrives then leaves the whole state as it is; and the resolve function of
  the entry's promise has been called exactly once. The settling event touches no other
  entry: each stays pending, with its promise unresolved.
\<close>

theorem settled_query_stays_settled:
  assumes s: "s = run_page evs"
    and p: "pendingRequests s rid = Some e"
    and ev: "settles rid (timeout e) ev"
    and s': "s' = foldl page_step (page_step s ev) later"
  shows "pendingRequests (page_step s ev) rid = None
       \<and> pendingRequests s' rid = None
       \<and> on_message \<lparr>from_window = w, data = Some \<lparr>source = src, msg_type = ty,
                        requestId = rid, payload = v\<rparr>\<rparr> s' = s'
       \<and> length (filter (\<lambda>c. fst c = resolve e) (resolve_calls s')) = 1
       \<and> (\<forall>rid' e'. rid' \<noteq> rid \<and> pendingRequests s rid' = Some e' \<longrightarrow>
             pendingRequests (page_step s ev) rid' = Some e'
             \<and> resolve e' \<notin> fst ` set (resolve_calls (page_step s ev)))"
proof -
  have inv: "page_inv s" unfolding s by (rule page_inv_run_page)
  from step_settles[OF inv p ev] obtain x where step: "page_step s ev = settle rid e x s"
    by blast
  have gone: "pendingRequests (page_step s ev) rid = None"
    by (simp add: step settle_fields)
  have iss: "issued (page_step s ev) rid"
    unfolding step by (rule issued_settle[OF issued_pending[OF inv p]])
  have mem: "(resolve e, x) \<in> set (resolve_calls (page_step s ev))"
    by (simp add: step settle_fields)
  from steps_keep_absent[OF iss gone mem, of later]
  have gone': "pendingRequests s' rid = None" and mem': "(resolve e, x) \<in> set (resolve_calls s')"
    unfolding s' by simp_all
  have inv': "page_inv s'"
    unfolding s' by (intro page_inv_foldl page_inv_step inv)
  have once: "length (filter (\<lambda>c. fst c = resolve e) (resolve_calls s')) = 1"
    using page_inv_resolved(2)[OF inv'] mem' by (rule resolved_once)
  have frame: "pendingRequests (page_step s ev) rid' = Some e'
             \<and> resolve e' \<notin> fst ` set (resolve_calls (page_step s ev))"
    if "rid' \<noteq> rid \<and> pendingRequests s rid' = Some e'" for rid' e'
  proof -
    from that have ne: "rid' \<noteq> rid" and p': "pendingRequests s rid' = Some e'" by simp_all
    have "resolve e' \<noteq> resolve e"
      using page_inv_promise_owner[OF inv p' p] ne by blast
    moreover have "resolve e' \<notin> fst ` set (resolve_calls s)"
      by (rule page_inv_pending(3)[OF inv p'])
    ultimately show ?thesis using ne p' by (simp add: step settle_fields)
  qed
  show ?thesis
    using gone gone' once frame on_message_absent[OF gone'] by blast
qed

theorem settled_query_stays_settled_witness:
  "pendingRequests (page_step example_page (TimerFires 1)) (request_id_string 5 1) = None
   \<and> on_message (mock_reply (request_id_string 5 1) (Some no_mock))
        (foldl page_step (page_step example_page (TimerFires 1))
           [MessageArrives (mock_reply (request_id_string 5 1) (Some no_mock)),
            CallCheckMock 7 ''https://a/b'' ''GET''])
      = foldl page_step (page_step example_page (TimerFires 1))
           [MessageArrives (mock_reply (request_id_string 5 1) (Some no_mock)),
            CallCheckMock 7 ''https://a/b'' ''GET'']
   \<and> length (filter (\<lambda>c. fst c = 0)
        (resolve_calls (foldl page_step (page_step example_page (TimerFires 1))
           [MessageArrives (mock_reply (request_id_string 5 1) (Some no_mock)),
            CallCheckMock 7 ''https://a/b'' ''GET'']))) = 1
   \<and> pendingRequests (page_step example_page (TimerFires 1)) (request_id_string 6 2)
      = Some \<lparr>resolve = 1, timeout = 2\<rparr>"
proof -
  have reach: "example_page
      = run_page [CallCheckMock 5 ''https://a/b'' ''GET'', CallCheckMock 6 ''https://c/d'' ''POST'']"
    by (simp add: example_page_def run_page_def)
  have fields:
    "pendingRequests example_page (request_id_string 5 1) = Some \<lparr>resolve = 0, timeout = 1\<rparr>"
    "pendingRequests example_page (request_id_string 6 2) = Some \<lparr>resolve = 1, timeout = 2\<rparr>"
    using request_id_distinct_example
    by (simp_all add: example_page_def run_page_Nil initial_page_def checkMock_fields
        Suc_1 [unfolded One_nat_def])
  have ev: "settles (request_id_string 5 1) (timeout \<lparr>resolve = 0, timeout = 1\<rparr>) (TimerFires 1)"
    by simp
  note T = settled_query_stays_settled
    [where later = "[MessageArrives (mock_reply (request_id_string 5 1) (Some no_mock)),
                     CallCheckMock 7 ''https://a/b'' ''GET'']"
       and w = True and src = "''api-mocker-content''" and ty = "''MOCK_RESPONSE''"
       and v = "Some no_mock",
     OF reach fields(1) ev refl]
  have other: "request_id_string 6 2 \<noteq> request_id_string 5 1
               \<and> pendingRequests example_page (request_id_string 6 2) = Some \<lparr>resolve = 1, timeout = 2\<rparr>"
    using request_id_distinct_example fields(2) by simp
  from T other show ?thesis
    by (simp add: mock_reply_def delivered_def)
qed

section \<open>Claim C10: an affirmative decision without a response\<close>

lemma fetch_resume_mocked:
  "shouldMock d \<Longrightarrow> response d = Some r \<Longrightarrow>
     fetch_resume originalFetch args (Some d) calls =
       (case mock_Response r of Inl e \<Rightarrow> Rejected e | Inr synthetic \<Rightarrow> Synthetic synthetic, calls)"
  by (simp add: fetch_resume_def split: sum.splits)

lemma xhr_send_resume_mocked:
  "shouldMock d \<Longrightarrow> response d = Some r \<Longrightarrow>
     xhr_send_resume originalSend xhr info b (Some d) sent =
       (Simulated (info\<lparr>info_mocked := True, info_mockResponse := Some r\<rparr>)
          (simulateMockedXHR xhr r), sent)"
  by (simp add: xhr_send_resume_def)

text \<open>
  C10. A decision without a response payload makes both shims call the original
  primitive, also when it says \<^verbatim>\<open>shouldMock:true\<close>. The original is left uncalled exactly
  when the decision says \<^verbatim>\<open>shouldMock\<close> and carries a response.
\<close>

theorem affirmative_without_response_is_unmocked:
  "(response d = None \<longrightarrow>
      fetch_resume originalFetch args (Some d) calls
        = (FromOriginal (originalFetch args), calls @ [args])
      \<and> xhr_send_resume originalSend xhr info b (Some d) sent
        = (SentOriginal (originalSend b), sent @ [b]))
   \<and> ((shouldMock d \<and> response d \<noteq> None)
        \<longleftrightarrow> snd (fetch_resume originalFetch args (Some d) calls) = calls)
   \<and> ((shouldMock d \<and> response d \<noteq> None)
        \<longleftrightarrow> snd (xhr_send_resume originalSend xhr info b (Some d) sent) = sent)"
proof (cases "shouldMock d \<and> response d \<noteq> None")
  case True
  then obtain r where "shouldMock d" "response d = Some r" by auto
  then show ?thesis
    by (simp add: fetch_resume_mocked xhr_send_resume_mocked)
next
  case False
  then show ?thesis
    by (simp add: fetch_resume_unmocked[OF False] xhr_send_resume_unmocked[OF False])
qed

theorem affirmative_without_response_is_unmocked_witness:
  "fetch_resume (\<lambda>a. ()) \<lparr>arg_input = Stringable ''/b'', arg_init = None\<rparr>
      (Some \<lparr>shouldMock = True, response = None, ruleId = Some ''rule_1'', error = None\<rparr>) []
     = (FromOriginal (), [\<lparr>arg_input = Stringable ''/b'', arg_init = None\<rparr>])
   \<and> xhr_send_resume (\<lambda>b. Inr ()) example_xhr new_xhrInfo (Some ''{}'')
      (Some \<lparr>shouldMock = True, response = None, ruleId = Some ''rule_1'', error = None\<rparr>) []
     = (SentOriginal (Inr ()), [Some ''{}''])"
  using affirmative_without_response_is_unmocked
    [where d = "\<lparr>shouldMock = True, response = None, ruleId = Some ''rule_1'', error = None\<rparr>"
       and originalFetch = "\<lambda>a. ()" and calls = "[]"
       and args = "\<lparr>arg_input = Stringable ''/b'', arg_init = None\<rparr>"
       and originalSend = "\<lambda>b. Inr ()" and xhr = example_xhr and info = new_xhrInfo
       and b = "Some ''{}''" and sent = "[]"]
  by simp

section \<open>Claim C8: URL extraction\<close>

lemma normalize_url_total: "normalize_url pf u = Inr (extracted_url pf u)"
  by (simp add: normalize_url_def try_catch_def extracted_url_def split: sum.splits)

text \<open>
  C8. Whatever the URL parser does with the string \<open>u\<close>, extraction returns: it yields the
  parser's absolute URL when the parser accepts \<open>u\<close> and \<open>u\<close> itself when the parser
  throws. On the fetch path the mock check is then issued for that URL; on the XHR path
  \<^verbatim>\<open>open\<close> records it and still calls the original \<^verbatim>\<open>open\<close> with the URL as given.
\<close>

theorem url_extraction_total:
  "normalize_url pf u = Inr (extracted_url pf u)
   \<and> fetch_query pf \<lparr>arg_input = Stringable u, arg_init = i\<rparr>
       = Inr \<lparr>url = extracted_url pf u,
              http_method = toUpperCase pf
                (or_string (case i of None \<Rightarrow> None | Some o' \<Rightarrow> init_method o') ''GET'')\<rparr>
   \<and> fetch_call pf now \<lparr>arg_input = Stringable u, arg_init = i\<rparr> s
       = Inr (checkMock now (extracted_url pf u)
                (toUpperCase pf
                   (or_string (case i of None \<Rightarrow> None | Some o' \<Rightarrow> init_method o') ''GET'')) s)
   \<and> map_sum id (\<lambda>r. (info_url (fst r), passed_url (snd r))) (xhr_open pf a info)
       = Inr (extracted_url pf (open_url a), open_url a)"
  by (simp add: normalize_url_total fetch_query_def fetch_call_def xhr_open_def try_catch_def
      extracted_url_def Let_def split: sum.splits)

theorem url_extraction_total_witness:
  "normalize_url example_platform ''/b'' = Inr ''https://a/b''
   \<and> normalize_url example_platform ''http://[bad'' = Inr ''http://[bad''
   \<and> map_sum id (\<lambda>r. (info_url (fst r), passed_url (snd r)))
        (xhr_open example_platform
           \<lparr>open_method = ''get'', open_url = ''http://[bad'', open_async = None,
            open_user = None, open_password = None\<rparr> new_xhrInfo)
       = Inr (''http://[bad'', ''http://[bad'')"
  using url_extraction_total [of example_platform "''/b''"]
    url_extraction_total [of example_platform "''http://[bad''" _ _ _
      "\<lparr>open_method = ''get'', open_url = ''http://[bad'', open_async = None,
        open_user = None, open_password = None\<rparr>" new_xhrInfo]
  by (simp add: extracted_url_def example_platform_def)

section \<open>Claim C6: the unmocked call\<close>

text \<open>
  C6 as stated fails for \<^verbatim>\<open>send\<close>: the override returns a promise where the original
  returns \<^verbatim>\<open>undefined\<close>, and when it returns the original \<^verbatim>\<open>send\<close> has not been called,
  where the unmodified primitive has started the request.
\<close>

theorem send_override_is_not_the_original:
  "fst (xhr_send_call 5 new_xhrInfo (Some ''{}'') initial_page [])
     \<noteq> fst (original_send_call (\<lambda>b. Inr ()) (Some ''{}'') [])
   \<and> snd (snd (xhr_send_call 5 new_xhrInfo (Some ''{}'') initial_page [])) = []
   \<and> snd (original_send_call (\<lambda>b. Inr ()) (Some ''{}'') []) = [Some ''{}'']"
  by (simp add: xhr_send_call_def original_send_call_def split_beta)

text \<open>
  C6, amended. For a decision with \<^verbatim>\<open>shouldMock:false\<close>: once the decision has arrived,
  each shim calls the original primitive once more, with the arguments of the call, and
  the call's promise settles with what the original returned or threw. The calls
  themselves return before that: \<^verbatim>\<open>fetch\<close> has issued the mock check and nothing else, and
  the \<^verbatim>\<open>send\<close> override has returned a promise without calling the original \<^verbatim>\<open>send\<close>.
\<close>

theorem unmocked_call_reaches_original:
  "\<not> shouldMock d \<longrightarrow>
     fetch_resume originalFetch args (Some d) calls
       = (FromOriginal (originalFetch args), calls @ [args])
     \<and> xhr_send_resume originalSend xhr info b (Some d) sent
       = (SentOriginal (originalSend b), sent @ [b])
     \<and> xhr_send_call now info b s sent
       = (ReturnsPromise, snd (checkMock now (info_url info) (info_method info) s), sent)"
  by (simp add: fetch_resume_unmocked xhr_send_resume_unmocked xhr_send_call_def split_beta)

theorem unmocked_call_reaches_original_witness:
  "fetch_resume (\<lambda>a. ()) \<lparr>arg_input = Stringable ''/b'', arg_init = None\<rparr> (Some no_mock) []
     = (FromOriginal (), [\<lparr>arg_input = Stringable ''/b'', arg_init = None\<rparr>])
   \<and> xhr_send_resume (\<lambda>b. Inl TypeError) example_xhr new_xhrInfo None (Some no_mock) []
     = (SentOriginal (Inl TypeError), [None])
   \<and> fst (xhr_send_call 5 new_xhrInfo None initial_page []) = ReturnsPromise"
  using unmocked_call_reaches_original
    [where d = no_mock and originalFetch = "\<lambda>a. ()" and calls = "[]"
       and args = "\<lparr>arg_input = Stringable ''/b'', arg_init = None\<rparr>"
       and originalSend = "\<lambda>b. Inl TypeError" and xhr = example_xhr and info = new_xhrInfo
       and b = None and sent = "[]" and now = 5 and s = initial_page]
  by (simp add: no_mock_def)

section \<open>Claim C9: the overridden properties\<close>

lemma simulateMockedXHR_fields:
  "accessors (fst (simulateMockedXHR xhr r)) =
     (accessors xhr)(''status'' \<mapsto> JNumber (or_number (status r) 200),
        ''statusText'' \<mapsto> JString (or_string (statusText r) ''OK''),
        ''response'' \<mapsto> JString (or_string (body r) ''''),
        ''responseText'' \<mapsto> JString (or_string (body r) ''''),
        ''responseURL'' \<mapsto> JString '''')"
  "allResponseHeaders (fst (simulateMockedXHR xhr r)) = Some (headersStr (headers r))"
  "responseHeaderSource (fst (simulateMockedXHR xhr r)) = Some (headers r)"
  "onreadystatechange (fst (simulateMockedXHR xhr r)) = onreadystatechange xhr"
  "onload (fst (simulateMockedXHR xhr r)) = onload xhr"
  "onloadend (fst (simulateMockedXHR xhr r)) = onloadend xhr"
  "assigned (fst (simulateMockedXHR xhr r)) = assigned xhr"
  "snd (simulateMockedXHR xhr r) = (5, OPENED)"
  by (simp_all add: simulateMockedXHR_def defineReadOnly_def Let_def)

lemma overridden_read:
  "(prop, v) \<in> set (overridden r) \<Longrightarrow>
     read_property (fst (simulateMockedXHR xhr r)) prop = Some v"
  by (auto simp add: overridden_def read_property_def simulateMockedXHR_fields)

lemma assign_accessor:
  "read_property obj prop = Some v \<Longrightarrow>
     assign_property False obj prop w = Inr obj \<and> assign_property True obj prop w = Inl TypeError"
  by (simp add: read_property_def assign_property_def)

lemma assign_handler_accessors: "accessors (fold assign_handler as x) = accessors x"
  by (induction as arbitrary: x) (simp_all add: assign_handler_def)

lemma call_handler_accessors:
  "accessors (fst (snd (call_handler t name slot arg seen em))) = accessors (fst em)"
  by (simp add: call_handler_def Let_def assign_handler_accessors split: option.splits)

lemma invoke_handler_accessors:
  "accessors (fst (snd (invoke_handler t name slot arg em))) = accessors (fst em)"
  by (simp add: invoke_handler_def call_handler_accessors)

lemma and_then_accessors:
  assumes "accessors (fst (snd first)) = A"
    and "\<And>em. accessors (fst em) = A \<Longrightarrow> accessors (fst (snd (second em))) = A"
  shows "accessors (fst (snd (and_then first second))) = A"
  using assms by (cases first) (auto simp add: and_then_def split: sum.splits)

lemma dispatchEvent_call_accessors:
  "accessors (fst (snd (dispatchEvent_call dispatchEvent t name slot em))) = accessors (fst em)"
  by (simp add: dispatchEvent_call_def invoke_handler_accessors split: option.splits)

lemma dispatch_events_caught:
  "dispatch_events dispatchEvent t em =
     (Inr (), snd (and_then (dispatchEvent_call dispatchEvent t ''load'' onload em)
                     (dispatchEvent_call dispatchEvent t ''loadend'' onloadend)))"
  by (simp add: dispatch_events_def Let_def split: prod.splits sum.splits)

lemma dispatch_events_accessors:
  "accessors (fst (snd (dispatch_events dispatchEvent t em))) = accessors (fst em)"
  unfolding dispatch_events_caught snd_conv
  by (rule and_then_accessors) (simp_all add: dispatchEvent_call_accessors)

lemma tick_accessors:
  "accessors (fst (snd (tick dispatchEvent t st (xhr, tr))))
     = (accessors xhr)(''readyState'' \<mapsto> JNumber (stage_value st))"
proof (cases st)
  case DONE
  show ?thesis
    unfolding DONE tick.simps stage_value.simps
    by (intro and_then_accessors)
       (simp_all add: invoke_handler_accessors dispatch_events_accessors defineReadOnly_def)
qed (simp_all add: and_then_accessors invoke_handler_accessors defineReadOnly_def)

lemma tick_readyState:
  "read_property (fst (snd (tick dispatchEvent t st (xhr, tr)))) ''readyState''
     = Some (JNumber (stage_value st))"
  by (simp add: read_property_def tick_accessors)


text \<open>
  C9 as stated fails in strict-mode code: assigning to \<^verbatim>\<open>status\<close> of a mocked instance
  raises \<^verbatim>\<open>TypeError\<close>.
\<close>

theorem strict_assignment_throws:
  "assign_property True (fst (simulateMockedXHR example_xhr example_payload)) ''status''
     (JNumber 200) = Inl TypeError"
  by (simp add: assign_property_def simulateMockedXHR_fields)

text \<open>
  C9, amended. Each property the emulator overrides reads as the emulator's value: the
  five that \<^verbatim>\<open>simulateMockedXHR\<close> defines at once, and \<^verbatim>\<open>readyState\<close> after each timer
  callback. An assignment to one of them from sloppy-mode code does nothing and returns;
  the same assignment from strict-mode code raises \<^verbatim>\<open>TypeError\<close>. In both cases the
  instance is as before, so a later read gives the emulator's value again.
\<close>

theorem overridden_properties_read_only:
  "(\<forall>(prop, v) \<in> set (overridden r).
      read_property (fst (simulateMockedXHR xhr r)) prop = Some v
      \<and> assign_property False (fst (simulateMockedXHR xhr r)) prop w
          = Inr (fst (simulateMockedXHR xhr r))
      \<and> assign_property True (fst (simulateMockedXHR xhr r)) prop w = Inl TypeError)
   \<and> read_property (fst (snd (tick dispatchEvent t st (obj, tr)))) ''readyState''
        = Some (JNumber (stage_value st))
   \<and> assign_property False (fst (snd (tick dispatchEvent t st (obj, tr)))) ''readyState'' w
        = Inr (fst (snd (tick dispatchEvent t st (obj, tr))))
   \<and> assign_property True (fst (snd (tick dispatchEvent t st (obj, tr)))) ''readyState'' w
        = Inl TypeError"
proof (intro conjI ballI)
  fix x assume x: "x \<in> set (overridden r)"
  obtain k v where pv: "x = (k, v)" by (cases x)
  from overridden_read[OF x[unfolded pv]] assign_accessor
  show "case x of (prop, v) \<Rightarrow>
      read_property (fst (simulateMockedXHR xhr r)) prop = Some v
      \<and> assign_property False (fst (simulateMockedXHR xhr r)) prop w
          = Inr (fst (simulateMockedXHR xhr r))
      \<and> assign_property True (fst (simulateMockedXHR xhr r)) prop w = Inl TypeError"
    by (simp add: pv)
next
  show "read_property (fst (snd (tick dispatchEvent t st (obj, tr)))) ''readyState''
        = Some (JNumber (stage_value st))"
    by (rule tick_readyState)
  show "assign_property False (fst (snd (tick dispatchEvent t st (obj, tr)))) ''readyState'' w
        = Inr (fst (snd (tick dispatchEvent t st (obj, tr))))"
    using assign_accessor[OF tick_readyState] by blast
  show "assign_property True (fst (snd (tick dispatchEvent t st (obj, tr)))) ''readyState'' w
        = Inl TypeError"
    using assign_accessor[OF tick_readyState] by blast
qed

theorem overridden_properties_read_only_witness:
  "read_property (fst (simulateMockedXHR example_xhr example_payload)) ''status''
     = Some (JNumber 404)
   \<and> assign_property False (fst (simulateMockedXHR example_xhr example_payload)) ''status''
       (JNumber 200) = Inr (fst (simulateMockedXHR example_xhr example_payload))
   \<and> read_property (fst (snd (tick (\<lambda>n. None) 20 DONE (example_xhr, [])))) ''readyState''
     = Some (JNumber 4)"
proof -
  have m: "(''status'', JNumber 404) \<in> set (overridden example_payload)"
    by (simp add: overridden_def example_payload_def or_number_def)
  from overridden_properties_read_only
    [of example_payload example_xhr "JNumber 200" "\<lambda>n. None" 20 DONE example_xhr "[]"] m
  show ?thesis by fastforce
qed

section \<open>Claim C7: header introspection\<close>

lemma find_header_first:
  "find_header js n (xs @ (k, v) # ys) = Some (JString v)"
  if "toLowerCase js k = n" and "\<And>k'. k' \<in> fst ` set xs \<Longrightarrow> toLowerCase js k' \<noteq> n"
  using that by (induction xs) auto

lemma find_header_none:
  "(\<And>k. k \<in> fst ` set entries \<Longrightarrow> toLowerCase js k \<noteq> n) \<Longrightarrow>
     find_header js n entries = None"
  by (induction entries) auto

text \<open>
  C7, on the code: with only the header \<^verbatim>\<open>Content-Type\<close> in the payload, asking for the
  absent name \<^verbatim>\<open>constructor\<close> gives the member \<^verbatim>\<open>headers[name]\<close> finds on
  \<^verbatim>\<open>Object.prototype\<close>, not \<^verbatim>\<open>null\<close>.
\<close>

theorem getResponseHeader_inherited_member:
  "getResponseHeader js (Some [(''Content-Type'', ''application/json'')]) ''constructor''
     = JInherited ''constructor''"
  by (simp add: getResponseHeader_def get_member_def object_prototype_members_def)

text \<open>
  What does hold of the two replacements. The listing has one line \<^verbatim>\<open>Name: value\<close> per
  entry, in the payload's order and spelling, each ended by CR LF. A lookup by a name
  that is not a member of \<^verbatim>\<open>Object.prototype\<close> finds the entry of that exact name when its
  value is not empty, else the first entry whose name has the same lower-case form, else
  \<^verbatim>\<open>null\<close>.
\<close>

lemma getAllResponseHeaders_listing:
  "allResponseHeaders (fst (simulateMockedXHR xhr r)) =
     Some (case headers r of
             None \<Rightarrow> ''''
           | Some entries \<Rightarrow> concat (map (\<lambda>(k, v). k @ '': '' @ v @ [CHR 13, CHR 10]) entries))"
proof -
  have "headers_lines entries = concat (map (\<lambda>(k, v). k @ '': '' @ v @ [CHR 13, CHR 10]) entries)"
    for entries
    by (induction entries) auto
  then show ?thesis
    by (simp add: simulateMockedXHR_fields headersStr_def split: option.splits)
qed

lemma getResponseHeader_case_insensitive:
  assumes "name \<notin> set object_prototype_members"
    and "map_of (before @ (k, v) # rest) name = None"
    and "toLowerCase js k = toLowerCase js name"
    and "\<And>k'. k' \<in> fst ` set before \<Longrightarrow> toLowerCase js k' \<noteq> toLowerCase js name"
  shows "getResponseHeader js (Some (before @ (k, v) # rest)) name = JString v"
proof -
  have f: "find_header js (toLowerCase js name) (before @ (k, v) # rest) = Some (JString v)"
    using assms(3,4) by (rule find_header_first)
  have g: "get_member (before @ (k, v) # rest) name = JUndefined"
    unfolding get_member_def using assms(1) by (simp only: assms(2)) simp
  show ?thesis
    unfolding getResponseHeader_def option.case f g by simp
qed

lemma getResponseHeader_absent:
  assumes "name \<notin> set object_prototype_members"
    and "\<And>k. k \<in> fst ` set entries \<Longrightarrow> toLowerCase js k \<noteq> toLowerCase js name"
  shows "getResponseHeader js (Some entries) name = JNull"
proof -
  have "name \<notin> fst ` set entries" using assms(2) by auto
  then have "map_of entries name = None" by (simp add: map_of_eq_None_iff)
  then show ?thesis
    using assms by (simp add: getResponseHeader_def get_member_def find_header_none)
qed

lemma getResponseHeader_content_type:
  "getResponseHeader latin1_methods (Some [(''Content-Type'', ''application/json'')])
       ''content-type''
     = JString ''application/json''"
  by (simp add: getResponseHeader_def get_member_def object_prototype_members_def
      latin1_methods_def latin1_lower_def char_of_def bit_0)

section \<open>Claim C4: the synthetic response\<close>

text \<open>
  C4, on the code: a decision to mock with status 204 and no body. The shim passes the
  body \<^verbatim>\<open>''\<close> and the status 204 to the \<^verbatim>\<open>Response\<close> constructor, which refuses a body
  with a null body status: the call is rejected with \<^verbatim>\<open>TypeError\<close>. A status below 200
  is refused with \<^verbatim>\<open>RangeError\<close>. In neither case is the original \<^verbatim>\<open>fetch\<close> called.
\<close>

theorem fetch_mock_null_body_status_rejects:
  "fetch_resume originalFetch args
     (Some \<lparr>shouldMock = True,
            response = Some \<lparr>status = Some 204, statusText = Some ''No Content'',
                             headers = Some [], body = Some ''''\<rparr>,
            ruleId = Some ''rule_1'', error = None\<rparr>) calls
     = (Rejected TypeError, calls)
   \<and> fetch_resume originalFetch args
     (Some \<lparr>shouldMock = True,
            response = Some \<lparr>status = Some 100, statusText = Some ''Continue'',
                             headers = Some [], body = Some ''''\<rparr>,
            ruleId = Some ''rule_1'', error = None\<rparr>) calls
     = (Rejected RangeError, calls)"
  by (simp add: fetch_resume_def mock_Response_def new_Response_def or_string_def or_number_def
      is_reason_phrase_def null_body_status_def)

text \<open>
  What does hold on the mock branch: when the constructors accept the payload, the call
  resolves with a response made from the payload's status and status text (200 and
  \<^verbatim>\<open>OK\<close> when absent, zero or empty), the payload's header entries and its body (empty
  when absent), and the original \<^verbatim>\<open>fetch\<close> is not called.
\<close>

lemma fetch_mock_synthetic:
  assumes "shouldMock d" and "response d = Some r"
    and "new_Headers (case headers r of None \<Rightarrow> [] | Some h \<Rightarrow> h) = Inr hs"
    and "200 \<le> or_number (status r) 200" and "or_number (status r) 200 \<le> 599"
    and "\<not> null_body_status (or_number (status r) 200)"
    and "is_reason_phrase (or_string (statusText r) ''OK'')"
  shows "fetch_resume originalFetch args (Some d) calls =
     (Synthetic \<lparr>response_status = or_number (status r) 200,
                 response_statusText = or_string (statusText r) ''OK'',
                 response_headers = hs,
                 response_body = or_string (body r) ''''\<rparr>, calls)"
proof -
  have "or_number (status r) 200 mod 65536 = or_number (status r) 200"
    using assms(4,5) by simp
  then show ?thesis
    using assms by (simp add: fetch_resume_mocked mock_Response_def new_Response_def Let_def)
qed

text \<open>
  The scenario of the rule \<^verbatim>\<open>POST https://api.x/users\<close>, from the rule authority's answer
  to the outcome of the \<^verbatim>\<open>fetch\<close> call: a \<^verbatim>\<open>POST\<close> resolves with the rule's response and
  a \<^verbatim>\<open>GET\<close> goes to the original \<^verbatim>\<open>fetch\<close>.
\<close>

lemma fetch_mock_example:
  \<open>fetch_resume originalFetch args
     (Some (sw_checkMock latin1_methods (example_storage (Some True))
              \<lparr>url = ''https://api.x/users'', http_method = ''POST''\<rparr>)) calls
   = (Synthetic \<lparr>response_status = 201, response_statusText = ''Created'',
                 response_headers = [(''Content-Type'', ''application/json'')],
                 response_body = ''{"id":1}''\<rparr>, calls)\<close>
proof -
  have d: "sw_checkMock latin1_methods (example_storage (Some True))
              \<lparr>url = ''https://api.x/users'', http_method = ''POST''\<rparr>
           = \<lparr>shouldMock = True, response = Some example_created, ruleId = Some ''rule_2'',
              error = None\<rparr>"
    by (simp add: sw_checkMock_def example_storage_def example_rules_def rule_matches_def
        latin1_upper_examples)
  have h: "new_Headers [(''Content-Type'', ''application/json'')]
             = Inr [(''Content-Type'', ''application/json'')]"
    by (simp add: is_header_name_def is_tchar_def is_header_value_def
        normalize_header_value_def is_http_whitespace_def)
  show ?thesis
    unfolding d using h
    by (subst fetch_mock_synthetic
          [where r = example_created and hs = "[(''Content-Type'', ''application/json'')]"])
       (simp_all add: example_created_def or_number_def or_string_def null_body_status_def
         is_reason_phrase_def)
qed

lemma fetch_unmocked_example:
  "fetch_resume originalFetch args
     (Some (sw_checkMock latin1_methods (example_storage (Some True))
              \<lparr>url = ''https://api.x/users'', http_method = ''GET''\<rparr>)) calls
   = (FromOriginal (originalFetch args), calls @ [args])"
proof -
  have "sw_checkMock latin1_methods (example_storage (Some True))
              \<lparr>url = ''https://api.x/users'', http_method = ''GET''\<rparr> = no_mock"
    by (simp add: sw_checkMock_def example_storage_def example_rules_def rule_matches_def
        latin1_upper_examples)
  then show ?thesis
    by (simp add: fetch_resume_unmocked no_mock_def)
qed

section \<open>Claim C5: the lifecycle of a mocked send\<close>

lemma defineReadOnly_fields:
  "accessors (defineReadOnly x p v) = (accessors x)(p \<mapsto> v)"
  "onreadystatechange (defineReadOnly x p v) = onreadystatechange x"
  "onload (defineReadOnly x p v) = onload x"
  "onloadend (defineReadOnly x p v) = onloadend x"
  by (simp_all add: defineReadOnly_def)










lemma handlers_return_simulate:
  "handlers_return (fst (simulateMockedXHR xhr r)) = handlers_return xhr"
  by (simp add: handlers_return_def simulateMockedXHR_fields)

lemma handlers_return_define:
  "handlers_return (defineReadOnly x p v) = handlers_return x"
  by (simp add: handlers_return_def defineReadOnly_fields)


















end
